theory Spec2Isabelle
  imports Main "HOL-Library.Sublist" "HOL-Library.Multiset" "HOL-Library.Word"
begin

unbundle bit_operations_syntax

section \<open>The delivery pipeline of frlbot.py (function main)\<close>

text \<open>
  Python strings are \<open>string\<close> (ASCII characters), Python integers are \<open>int\<close>.
  A naive \<open>datetime\<close> is the number of microseconds since a fixed epoch, so that
  subtraction gives a \<open>timedelta\<close> in microseconds and comparison is comparison of
  integers.
\<close>

type_synonym datetime = int

definition timedelta_days :: "int \<Rightarrow> int" where
  "timedelta_days d = d * 86400000000"

definition timedelta_hours :: "int \<Rightarrow> int" where
  "timedelta_hours h = h * 3600000000"

text \<open>The class \<open>NewsFromFeed\<close>: the six attributes its constructor sets.\<close>

record NewsFromFeed =
  title :: string
  date :: datetime
  author :: string
  summary :: string
  link :: string
  checksum :: string

text \<open>
  The table \<open>news(date, checksum)\<close> of the SQLite store is the list of its rows, in
  insertion order; the table has no uniqueness constraint.
  \<open>news_exists\<close> is the query \<open>SELECT * FROM news WHERE checksum='...'\<close> followed by
  \<open>fetchone() is None\<close>; \<open>news_insert\<close> is the \<open>INSERT INTO news(date, checksum)\<close>
  with its commit.
\<close>

type_synonym news_table = "(datetime \<times> string) list"

definition news_exists :: "news_table \<Rightarrow> string \<Rightarrow> bool" where
  "news_exists tbl c = (c \<in> set (map snd tbl))"

definition news_insert :: "news_table \<Rightarrow> datetime \<Rightarrow> string \<Rightarrow> news_table" where
  "news_insert tbl d c = tbl @ [(d, c)]"

text \<open>Python's \<open>needle in haystack\<close> on strings.\<close>

fun str_in :: "string \<Rightarrow> string \<Rightarrow> bool" where
  "str_in p [] = (p = [])"
| "str_in p (c # cs) = (prefix p (c # cs) \<or> str_in p cs)"

text \<open>
  What a run of \<open>main\<close> reads from outside: the flag \<open>dryRun\<close>, the value of
  \<open>NEWS_COUNT\<close>, the clock, and the Telegram API. \<open>send_message e i n\<close> is what
  \<open>telegramBot.send_message\<close> does when it is called for the \<open>i\<close>-th article of the run:
  \<open>None\<close> when it returns, \<open>Some msg\<close> when it raises an exception whose text is
  \<open>msg\<close>. The clock is read as one value \<open>now\<close> for the run. The translation calls
  catch their own exceptions and the store is taken to accept every insert, so the call
  of \<open>send_message\<close> is the only statement of the \<open>try\<close> block that raises.
\<close>

record env =
  dryRun :: bool
  max_news :: int
  now :: datetime
  send_message :: "nat \<Rightarrow> NewsFromFeed \<Rightarrow> string option"

text \<open>
  The local variables of \<open>main\<close> and its effects: the rows of the table, the two counters,
  the last exception text, the articles whose message reached the target chat (in
  order), and the texts sent to the admin chat.
\<close>

record run =
  news_tbl :: news_table
  news_cnt :: int
  exception_cnt :: int
  exception_message :: string
  sent :: "NewsFromFeed list"
  admin_alerts :: "string list"

definition alert_text :: "string \<Rightarrow> string" where
  "alert_text msg = ''Too many errors, skipping this execution. Last error: `'' @ msg @ ''`''"

text \<open>The body of the \<open>for\<close> loop of \<open>main\<close> up to the two checks that end it (lines 412-456).\<close>

definition process_news :: "env \<Rightarrow> nat \<Rightarrow> run \<Rightarrow> NewsFromFeed \<Rightarrow> run" where
  "process_news e i s n =
     (if \<not> news_exists (news_tbl s) (checksum n) then
        (if now e - date n > timedelta_days 30 then s
         else if date n > now e then s
         else
           (case (if \<not> dryRun e then send_message e i n else None) of
              None \<Rightarrow>
                (if \<not> dryRun e
                 then s\<lparr>sent := sent s @ [n],
                        news_tbl := news_insert (news_tbl s) (date n) (checksum n),
                        news_cnt := news_cnt s + 1\<rparr>
                 else s\<lparr>news_cnt := news_cnt s + 1\<rparr>)
            | Some msg \<Rightarrow>
                (if str_in ''can't parse entities:'' msg
                 then s\<lparr>exception_message := msg,
                        news_tbl := news_insert (news_tbl s) (date n) (checksum n)\<rparr>
                 else s\<lparr>exception_message := msg,
                        exception_cnt := exception_cnt s + 1\<rparr>)))
      else s)"

text \<open>
  The loop itself: after each article, the error check (line 458) and then the count
  check (line 464), each a \<open>break\<close>.
\<close>

fun main_loop :: "env \<Rightarrow> nat \<Rightarrow> run \<Rightarrow> NewsFromFeed list \<Rightarrow> run" where
  "main_loop e i s [] = s"
| "main_loop e i s (n # ns) =
     (let s' = process_news e i s n in
      if exception_cnt s' > 3 then
        (if \<not> dryRun e
         then s'\<lparr>admin_alerts := admin_alerts s' @ [alert_text (exception_message s')]\<rparr>
         else s')
      else if news_cnt s' \<ge> max_news e then s'
      else main_loop e (Suc i) s' ns)"

definition main_init :: "news_table \<Rightarrow> run" where
  "main_init tbl = \<lparr>news_tbl = tbl, news_cnt = 0, exception_cnt = 0,
                     exception_message = [], sent = [], admin_alerts = []\<rparr>"

text \<open>\<open>main\<close> on the store \<open>tbl\<close> and the list that \<open>parse_news\<close> returned.\<close>

definition main :: "env \<Rightarrow> news_table \<Rightarrow> NewsFromFeed list \<Rightarrow> run" where
  "main e tbl articles = main_loop e 0 (main_init tbl) articles"

text \<open>
  An article \<open>a\<close> that a run delivered between the states \<open>s\<close> and \<open>s'\<close>: it had no row
  in \<open>s\<close>, has one in \<open>s'\<close>, and passed the two date checks.
\<close>

definition fresh_for :: "env \<Rightarrow> run \<Rightarrow> run \<Rightarrow> NewsFromFeed \<Rightarrow> bool" where
  "fresh_for e s s' a \<longleftrightarrow>
     \<not> news_exists (news_tbl s) (checksum a) \<and> news_exists (news_tbl s') (checksum a) \<and>
     \<not> dryRun e \<and> now e - date a \<le> timedelta_days 30 \<and> date a \<le> now e"

text \<open>Sample inputs: an article with a given checksum and date, and a run at day 100.\<close>

definition ex_news :: "string \<Rightarrow> datetime \<Rightarrow> NewsFromFeed" where
  "ex_news c d = \<lparr>title = ''T'', date = d, author = ''A'', summary = ''S'',
                  link = ''L'', checksum = c\<rparr>"

definition ex_env :: "int \<Rightarrow> (nat \<Rightarrow> string option) \<Rightarrow> env" where
  "ex_env N out = \<lparr>dryRun = False, max_news = N, now = timedelta_days 100,
                   send_message = (\<lambda>i n. out i)\<rparr>"

section \<open>Strings and the MD5 checksum\<close>

text \<open>
  The string methods the program calls, on ASCII text: characters above 127 are kept as
  they are, and count neither as white space nor as letters. \<open>isspace\<close> is the white
  space that \<open>str.strip()\<close> removes (tab, line feed, vertical tab, form feed, carriage
  return, the four separators \<open>0x1C\<close> to \<open>0x1F\<close>, and the space).
\<close>

definition in_range :: "char \<Rightarrow> char \<Rightarrow> char \<Rightarrow> bool" where
  "in_range lo hi c = ((of_char lo :: nat) \<le> of_char c \<and> (of_char c :: nat) \<le> of_char hi)"

definition isspace :: "char \<Rightarrow> bool" where
  "isspace c = (in_range (char_of (9::nat)) (char_of (13::nat)) c \<or>
                in_range (char_of (28::nat)) (char_of (32::nat)) c)"

definition lower_char :: "char \<Rightarrow> char" where
  "lower_char c = (if in_range CHR ''A'' CHR ''Z'' c then char_of (of_char c + (32::nat)) else c)"

definition str_lower :: "string \<Rightarrow> string" where
  "str_lower s = map lower_char s"

definition str_strip :: "string \<Rightarrow> string" where
  "str_strip s = rev (dropWhile isspace (rev (dropWhile isspace s)))"

text \<open>
  \<open>s.replace(old, new)\<close> for a non-empty \<open>old\<close>: the occurrences are replaced from the
  left, without overlap.
\<close>

function str_replace :: "string \<Rightarrow> string \<Rightarrow> string \<Rightarrow> string" where
  "str_replace old new [] = []"
| "str_replace old new (c # cs) =
     (if old \<noteq> [] \<and> prefix old (c # cs)
      then new @ str_replace old new (drop (length old) (c # cs))
      else c # str_replace old new cs)"
  by pat_completeness auto
termination
  by (relation "measure (\<lambda>(old, new, s). length s)") auto

text \<open>
  \<open>hashlib.md5(b).hexdigest()\<close>, after RFC 1321, on 32-bit words: the message is padded
  to a multiple of 64 bytes, each block of sixteen little-endian words goes through the
  64 steps, and the four state words are written out little-endian in hexadecimal.
\<close>

definition md5_K :: "32 word list" where
  "md5_K = [0xd76aa478, 0xe8c7b756, 0x242070db, 0xc1bdceee, 0xf57c0faf, 0x4787c62a,
            0xa8304613, 0xfd469501, 0x698098d8, 0x8b44f7af, 0xffff5bb1, 0x895cd7be,
            0x6b901122, 0xfd987193, 0xa679438e, 0x49b40821, 0xf61e2562, 0xc040b340,
            0x265e5a51, 0xe9b6c7aa, 0xd62f105d, 0x02441453, 0xd8a1e681, 0xe7d3fbc8,
            0x21e1cde6, 0xc33707d6, 0xf4d50d87, 0x455a14ed, 0xa9e3e905, 0xfcefa3f8,
            0x676f02d9, 0x8d2a4c8a, 0xfffa3942, 0x8771f681, 0x6d9d6122, 0xfde5380c,
            0xa4beea44, 0x4bdecfa9, 0xf6bb4b60, 0xbebfbc70, 0x289b7ec6, 0xeaa127fa,
            0xd4ef3085, 0x04881d05, 0xd9d4d039, 0xe6db99e5, 0x1fa27cf8, 0xc4ac5665,
            0xf4292244, 0x432aff97, 0xab9423a7, 0xfc93a039, 0x655b59c3, 0x8f0ccc92,
            0xffeff47d, 0x85845dd1, 0x6fa87e4f, 0xfe2ce6e0, 0xa3014314, 0x4e0811a1,
            0xf7537e82, 0xbd3af235, 0x2ad7d2bb, 0xeb86d391]"

definition md5_s :: "nat list" where
  "md5_s = [7, 12, 17, 22, 7, 12, 17, 22, 7, 12, 17, 22, 7, 12, 17, 22,
            5, 9, 14, 20, 5, 9, 14, 20, 5, 9, 14, 20, 5, 9, 14, 20,
            4, 11, 16, 23, 4, 11, 16, 23, 4, 11, 16, 23, 4, 11, 16, 23,
            6, 10, 15, 21, 6, 10, 15, 21, 6, 10, 15, 21, 6, 10, 15, 21]"

text \<open>Rotation of a 32-bit word to the left by \<open>n\<close> bits, \<open>0 < n < 32\<close>.\<close>

definition rotl32 :: "32 word \<Rightarrow> nat \<Rightarrow> 32 word" where
  "rotl32 x n = push_bit n x OR drop_bit (32 - n) x"

type_synonym md5_state = "32 word \<times> 32 word \<times> 32 word \<times> 32 word"

text \<open>Step \<open>i\<close> of the 64 steps on the block \<open>M\<close> of sixteen words.\<close>

definition md5_step :: "32 word list \<Rightarrow> md5_state \<Rightarrow> nat \<Rightarrow> md5_state" where
  "md5_step M st i =
     (case st of (A, B, C, D) \<Rightarrow>
        let (F, g) =
              (if i < 16 then ((B AND C) OR (NOT B AND D), i)
               else if i < 32 then ((D AND B) OR (NOT D AND C), (5 * i + 1) mod 16)
               else if i < 48 then (B XOR C XOR D, (3 * i + 5) mod 16)
               else (C XOR (B OR NOT D), (7 * i) mod 16));
            F' = F + A + md5_K ! i + M ! g
        in (D, B + rotl32 F' (md5_s ! i), B, C))"

definition le_word :: "8 word list \<Rightarrow> 32 word" where
  "le_word bs = foldr (\<lambda>b w. push_bit 8 w OR ucast b) bs 0"

text \<open>\<open>chunks n k xs\<close>: the first \<open>n\<close> pieces of \<open>k\<close> elements of \<open>xs\<close>.\<close>

fun chunks :: "nat \<Rightarrow> nat \<Rightarrow> 'a list \<Rightarrow> 'a list list" where
  "chunks 0 k xs = []"
| "chunks (Suc n) k xs = take k xs # chunks n k (drop k xs)"

definition md5_block :: "md5_state \<Rightarrow> 8 word list \<Rightarrow> md5_state" where
  "md5_block st blk =
     (let M = map le_word (chunks 16 4 blk) in
      case (st, foldl (md5_step M) st [0..<64]) of
        ((a0, b0, c0, d0), (A, B, C, D)) \<Rightarrow> (a0 + A, b0 + B, c0 + C, d0 + D))"

definition md5_pad :: "8 word list \<Rightarrow> 8 word list" where
  "md5_pad msg =
     (let n = length msg;
          z = (55 + 64 - n mod 64) mod 64;
          bits = (of_nat (8 * n) :: 64 word)
      in msg @ [0x80] @ replicate z 0 @ map (\<lambda>k. ucast (drop_bit (8 * k) bits)) [0..<8])"

definition md5_init :: md5_state where
  "md5_init = (0x67452301, 0xefcdab89, 0x98badcfe, 0x10325476)"

definition md5_digest :: "8 word list \<Rightarrow> 8 word list" where
  "md5_digest msg =
     (let p = md5_pad msg in
      case foldl md5_block md5_init (chunks (length p div 64) 64 p) of
        (A, B, C, D) \<Rightarrow>
          concat (map (\<lambda>w. map (\<lambda>k. ucast (drop_bit (8 * k) w)) [0..<4]) [A, B, C, D]))"

definition hex_digit :: "nat \<Rightarrow> char" where
  "hex_digit k = ''0123456789abcdef'' ! k"

definition hexdigest :: "8 word list \<Rightarrow> string" where
  "hexdigest bs = concat (map (\<lambda>b. [hex_digit (unat b div 16), hex_digit (unat b mod 16)]) bs)"

text \<open>\<open>s.encode('utf-8')\<close> on ASCII text: one byte for each character.\<close>

definition encode_utf8 :: "string \<Rightarrow> 8 word list" where
  "encode_utf8 s = map (\<lambda>c. of_nat (of_char c)) s"

definition md5_hex :: "string \<Rightarrow> string" where
  "md5_hex s = hexdigest (md5_digest (encode_utf8 s))"
section \<open>The regular expressions of the program\<close>

text \<open>
  The three patterns the program compiles (\<open>regex_html\<close>, \<open>regex_link\<close>,
  \<open>regex_read_more\<close>) and the one of \<open>extract_domain\<close> use: literal characters,
  character classes, sequence, alternative (left first), the greedy \<open>?\<close>, greedy
  repetition of a class between bounds, the lazy \<open>.*?\<close>, and the word boundary \<open>\b\<close>.
  \<open>rx\<close> is that syntax.
\<close>

datatype rx =
    Eps
  | Lit char
  | Cls "char \<Rightarrow> bool"
  | Seq rx rx
  | Alt rx rx
  | Opt rx
  | Rep "char \<Rightarrow> bool" nat "nat option"
  | RepLazy "char \<Rightarrow> bool"
  | WordB

text \<open>
  Matching is the backtracking search of Python's \<open>re\<close>: \<open>rx_match r prev s k\<close> matches
  \<open>r\<close> at the front of \<open>s\<close> (\<open>prev\<close> is the character before, if any) and hands the
  last character consumed and the rest of the input to the continuation \<open>k\<close>; when \<open>k\<close>
  fails, the next way of matching \<open>r\<close> is tried, in the order of the engine: a greedy
  repetition gives characters back one at a time, a lazy one takes one more.
\<close>

fun rep_greedy :: "(char \<Rightarrow> bool) \<Rightarrow> nat \<Rightarrow> nat option \<Rightarrow> char option \<Rightarrow> string \<Rightarrow>
    (char option \<Rightarrow> string \<Rightarrow> 'a option) \<Rightarrow> 'a option" where
  "rep_greedy P lo hi prev [] k = (if lo = 0 then k prev [] else None)"
| "rep_greedy P lo hi prev (c # cs) k =
     (if P c \<and> hi \<noteq> Some 0 then
        (case rep_greedy P (lo - 1) (map_option (\<lambda>h. h - 1) hi) (Some c) cs k of
           Some r \<Rightarrow> Some r
         | None \<Rightarrow> if lo = 0 then k prev (c # cs) else None)
      else if lo = 0 then k prev (c # cs) else None)"

fun rep_lazy :: "(char \<Rightarrow> bool) \<Rightarrow> char option \<Rightarrow> string \<Rightarrow>
    (char option \<Rightarrow> string \<Rightarrow> 'a option) \<Rightarrow> 'a option" where
  "rep_lazy P prev [] k = k prev []"
| "rep_lazy P prev (c # cs) k =
     (case k prev (c # cs) of
        Some r \<Rightarrow> Some r
      | None \<Rightarrow> if P c then rep_lazy P (Some c) cs k else None)"

text \<open>\<open>\w\<close> on ASCII text, and \<open>\b\<close>: exactly one side of the position is a word character.\<close>

definition is_word :: "char \<Rightarrow> bool" where
  "is_word c = (in_range CHR ''a'' CHR ''z'' c \<or> in_range CHR ''A'' CHR ''Z'' c \<or>
                in_range CHR ''0'' CHR ''9'' c \<or> c = CHR ''_'')"

definition at_boundary :: "char option \<Rightarrow> string \<Rightarrow> bool" where
  "at_boundary prev s =
     ((case prev of None \<Rightarrow> False | Some c \<Rightarrow> is_word c) \<noteq>
      (case s of [] \<Rightarrow> False | c # _ \<Rightarrow> is_word c))"

fun rx_match :: "rx \<Rightarrow> char option \<Rightarrow> string \<Rightarrow>
    (char option \<Rightarrow> string \<Rightarrow> 'a option) \<Rightarrow> 'a option" where
  "rx_match Eps prev s k = k prev s"
| "rx_match (Lit a) prev s k =
     (case s of [] \<Rightarrow> None | c # cs \<Rightarrow> if c = a then k (Some c) cs else None)"
| "rx_match (Cls P) prev s k =
     (case s of [] \<Rightarrow> None | c # cs \<Rightarrow> if P c then k (Some c) cs else None)"
| "rx_match (Seq a b) prev s k = rx_match a prev s (\<lambda>p r. rx_match b p r k)"
| "rx_match (Alt a b) prev s k =
     (case rx_match a prev s k of Some r \<Rightarrow> Some r | None \<Rightarrow> rx_match b prev s k)"
| "rx_match (Opt a) prev s k =
     (case rx_match a prev s k of Some r \<Rightarrow> Some r | None \<Rightarrow> k prev s)"
| "rx_match (Rep P lo hi) prev s k = rep_greedy P lo hi prev s k"
| "rx_match (RepLazy P) prev s k = rep_lazy P prev s k"
| "rx_match WordB prev s k = (if at_boundary prev s then k prev s else None)"

text \<open>The match of \<open>r\<close> that starts at the front of \<open>s\<close>: its last character and what follows it.\<close>

definition rx_at :: "rx \<Rightarrow> char option \<Rightarrow> string \<Rightarrow> (char option \<times> string) option" where
  "rx_at r prev s = rx_match r prev s (\<lambda>p t. Some (p, t))"

text \<open>
  \<open>re.sub(r, "", s)\<close>: scan from the left; where \<open>r\<close> matches, drop the match and go on
  behind it, otherwise keep the character. (An empty match would drop nothing; none of
  the patterns below has one.)
\<close>

function re_sub :: "rx \<Rightarrow> char option \<Rightarrow> string \<Rightarrow> string" where
  "re_sub r prev [] = []"
| "re_sub r prev (c # cs) =
     (case rx_at r prev (c # cs) of
        None \<Rightarrow> c # re_sub r (Some c) cs
      | Some (p, t) \<Rightarrow>
          if length t < length (c # cs) then re_sub r p t else c # re_sub r (Some c) cs)"
  by pat_completeness auto
termination
  by (relation "measure (\<lambda>(r, prev, s). length s)") auto

fun rx_str :: "string \<Rightarrow> rx" where
  "rx_str [] = Eps"
| "rx_str (c # cs) = Seq (Lit c) (rx_str cs)"

text \<open>A literal under \<open>re.IGNORECASE\<close>.\<close>

fun rx_str_ci :: "string \<Rightarrow> rx" where
  "rx_str_ci [] = Eps"
| "rx_str_ci (c # cs) = Seq (Cls (\<lambda>x. lower_char x = lower_char c)) (rx_str_ci cs)"

definition alnum :: "char \<Rightarrow> bool" where
  "alnum c = (in_range CHR ''a'' CHR ''z'' c \<or> in_range CHR ''A'' CHR ''Z'' c \<or>
              in_range CHR ''0'' CHR ''9'' c)"

text \<open>
  \<open>remove_html\<close>: the pattern
  \<^verbatim>\<open><.*?>|&([a-z0-9]+|#[0-9]{1,6}|#x[0-9a-f]{1,6});\<close>
  where \<open>.\<close> is any character but the line feed.
\<close>

definition regex_html :: rx where
  "regex_html =
     Alt (Seq (Lit CHR ''<'') (Seq (RepLazy (\<lambda>c. c \<noteq> CHR 0x0A)) (Lit CHR ''>'')))
         (Seq (Lit CHR ''&'')
           (Seq (Alt (Rep (\<lambda>c. in_range CHR ''a'' CHR ''z'' c \<or> in_range CHR ''0'' CHR ''9'' c) 1 None)
                (Alt (Seq (Lit CHR ''#'') (Rep (in_range CHR ''0'' CHR ''9'') 1 (Some 6)))
                     (Seq (Lit CHR ''#'') (Seq (Lit CHR ''x'')
                        (Rep (\<lambda>c. in_range CHR ''0'' CHR ''9'' c \<or> in_range CHR ''a'' CHR ''f'' c)
                           1 (Some 6))))))
             (Lit CHR '';'')))"

definition remove_html :: "string \<Rightarrow> string" where
  "remove_html inputText = re_sub regex_html None (str_strip inputText)"

text \<open>
  \<open>remove_links\<close>: the pattern
  \<^verbatim>\<open>(?:https?:\/\/)?(?:www\.)?[-a-zA-Z0-9@:%._\+~#=]{1,256}\.[a-zA-Z0-9()]{1,6}\b(?:[-a-zA-Z0-9()@:%_\+.~#?&//=]*)\<close>
\<close>

definition regex_link :: rx where
  "regex_link =
     Seq (Opt (Seq (rx_str ''http'') (Seq (Opt (Lit CHR ''s'')) (rx_str ''://''))))
    (Seq (Opt (rx_str ''www.''))
    (Seq (Rep (\<lambda>c. alnum c \<or> c \<in> set ''-@:%._+~#='') 1 (Some 256))
    (Seq (Lit CHR ''.'')
    (Seq (Rep (\<lambda>c. alnum c \<or> c \<in> set ''()'') 1 (Some 6))
    (Seq WordB
         (Rep (\<lambda>c. alnum c \<or> c \<in> set ''-()@:%_+.~#?&/='') 0 None))))))"

definition remove_links :: "string \<Rightarrow> string" where
  "remove_links inputText = re_sub regex_link None (str_strip inputText)"

text \<open>\<open>re.compile(re.escape("read more"), re.IGNORECASE)\<close>.\<close>

definition regex_read_more :: rx where
  "regex_read_more = rx_str_ci ''read more''"

text \<open>
  \<open>extract_domain\<close>: \<open>re.match\<close> of \<^verbatim>\<open>https?://(?:www\.)?([^/]+)\<close> at the start
  of the URL; the result is group 1, the text the last repetition consumed, or
  \<open>anonymous\<close> when there is no match.
\<close>

definition extract_domain :: "string \<Rightarrow> string" where
  "extract_domain url =
     (case rx_match
             (Seq (rx_str ''http'') (Seq (Opt (Lit CHR ''s''))
               (Seq (rx_str ''://'') (Opt (rx_str ''www.''))))) None url
             (\<lambda>p r. rx_match (Rep (\<lambda>c. c \<noteq> CHR ''/'') 1 None) p r
                       (\<lambda>p' r'. Some (take (length r - length r') r))) of
        Some d \<Rightarrow> d
      | None \<Rightarrow> ''anonymous'')"

section \<open>Building an article (class NewsFromFeed, create_article, parse_news)\<close>

text \<open>
  The loop \<open>while '  ' in cut_text: cut_text = cut_text.replace('  ', ' ')\<close>. It ends
  because every round that finds two spaces makes the text shorter.
\<close>

function collapse_spaces :: "string \<Rightarrow> string" where
  "collapse_spaces cut_text =
     (if str_in ''  '' cut_text then collapse_spaces (str_replace ''  '' '' '' cut_text)
      else cut_text)"
  by pat_completeness auto
termination
proof (relation "measure length")
  show "wf (measure length)" by simp
next
  fix cut_text :: string
  assume a: "str_in ''  '' cut_text"
  have le: "length new \<le> length old \<Longrightarrow> length (str_replace old new t) \<le> length t"
    for old new t
  proof (induction old new t rule: str_replace.induct)
    case (1 old new)
    then show ?case by simp
  next
    case (2 old new c cs)
    show ?case
    proof (cases "old \<noteq> [] \<and> prefix old (c # cs)")
      case True
      then have "length old \<le> length (c # cs)" using prefix_length_le by blast
      with 2 True show ?thesis by simp
    next
      case False
      with 2 show ?thesis by auto
    qed
  qed
  have lt: "length new < length old \<Longrightarrow> str_in old t \<Longrightarrow>
      length (str_replace old new t) < length t" for old new t
  proof (induction old new t rule: str_replace.induct)
    case (1 old new)
    then show ?case by simp
  next
    case (2 old new c cs)
    show ?case
    proof (cases "old \<noteq> [] \<and> prefix old (c # cs)")
      case True
      then have "length old \<le> length (c # cs)" using prefix_length_le by blast
      moreover have "length (str_replace old new (drop (length old) (c # cs)))
          \<le> length (drop (length old) (c # cs))"
        using 2(3) by (intro le) simp
      ultimately show ?thesis using True 2(3) by simp
    next
      case False
      with 2 show ?thesis by auto
    qed
  qed
  from a show "(str_replace ''  '' '' '' cut_text, cut_text) \<in> measure length"
    using lt [of "'' ''" "''  ''" cut_text] by simp
qed

declare collapse_spaces.simps [simp del]

text \<open>
  The summary that the constructor computes from \<open>inputSummary\<close> (lines 156-171):
  \<open>no_read_more\<close>, then \<open>cut_text\<close> with line feeds turned into spaces and double
  spaces collapsed, then the cut at 300 characters, decided on the length of
  \<open>no_read_more\<close>.
\<close>

definition no_read_more :: "string \<Rightarrow> string" where
  "no_read_more inputSummary =
     (if length inputSummary > 10
      then re_sub regex_read_more None (str_strip inputSummary)
      else inputSummary)"

definition cut_text :: "string \<Rightarrow> string" where
  "cut_text inputSummary =
     collapse_spaces (str_replace [CHR 0x0A] '' '' (str_strip (no_read_more inputSummary)))"

definition news_summary :: "string \<Rightarrow> string" where
  "news_summary inputSummary =
     (if length (no_read_more inputSummary) > 300
      then take 300 (cut_text inputSummary) @ '' ...''
      else cut_text inputSummary)"

text \<open>\<open>clean_url\<close> and the checksum (lines 173-177).\<close>

definition clean_url :: "string \<Rightarrow> string" where
  "clean_url inputLink = str_lower (str_strip inputLink)"

definition news_checksum :: "string \<Rightarrow> string" where
  "news_checksum inputLink = md5_hex (clean_url inputLink)"

text \<open>
  The constructor. \<open>dateutil.parser.parse\<close> is a library function: it is the parameter
  \<open>parse\<close>, which gives \<open>None\<close> where the library raises. The constructor then raises
  as well, the only way it can: its result is \<open>None\<close>.
\<close>

definition NewsFromFeed_init ::
  "(string \<Rightarrow> datetime option) \<Rightarrow> string \<Rightarrow> string \<Rightarrow> string \<Rightarrow> string \<Rightarrow> string
     \<Rightarrow> NewsFromFeed option" where
  "NewsFromFeed_init parse inputTitle inputDate inputAuthor inputSummary inputLink =
     (case parse inputDate of
        None \<Rightarrow> None
      | Some d \<Rightarrow>
          Some \<lparr>title = str_strip inputTitle,
                date = d,
                author = str_strip inputAuthor,
                summary = news_summary inputSummary,
                link = ''['' @ str_strip inputTitle @ '']('' @ clean_url inputLink @ '')'',
                checksum = news_checksum inputLink\<rparr>)"

text \<open>
  A feed entry is a dictionary from field names to strings. \<open>entry.get(k)\<close> is the
  lookup; \<open>get_truthy\<close> is the lookup as Python's \<open>or\<close> and \<open>if\<close> read it, where a
  missing field and an empty string both count as false.
\<close>

type_synonym entry = "string \<rightharpoonup> string"

definition get_truthy :: "entry \<Rightarrow> string \<Rightarrow> string option" where
  "get_truthy e k = (case e k of None \<Rightarrow> None | Some v \<Rightarrow> if v = [] then None else Some v)"

datatype py_exception = KeyError string

text \<open>
  \<open>extract_feed_content\<close>. Its log lines read \<open>entry['link']\<close>; \<open>create_article\<close> has
  read that field before it calls, so the lookup succeeds here.
\<close>

definition extract_feed_content :: "entry \<Rightarrow> string \<Rightarrow> string option" where
  "extract_feed_content e content_key =
     (case get_truthy e content_key of
        None \<Rightarrow> None
      | Some content \<Rightarrow>
          (let cleaned_content = remove_links (remove_html content) in
           if length cleaned_content > 10 then Some cleaned_content else None))"

text \<open>
  \<open>create_article\<close>. Its first statement reads \<open>entry['link']\<close> for a log line; when the
  field is missing the \<open>KeyError\<close> reaches the handler \<open>except KeyError\<close>, whose own log
  line reads \<open>entry['link']\<close> again, and this second \<open>KeyError\<close> leaves the function:
  the result is \<open>Inl\<close>. With a link, every other failure is caught and the result is
  \<open>Inr None\<close>: no content, a missing \<open>title\<close> field (\<open>entry["title"]\<close> raises
  \<open>KeyError\<close>), no date, or a date the parser rejects.
\<close>

definition create_article ::
  "(string \<Rightarrow> datetime option) \<Rightarrow> entry \<Rightarrow> string \<Rightarrow> string \<Rightarrow> string
     \<Rightarrow> py_exception + NewsFromFeed option" where
  "create_article parse e content_key author_key date_key =
     (case e ''link'' of
        None \<Rightarrow> Inl (KeyError ''link'')
      | Some lnk \<Rightarrow>
          Inr (case extract_feed_content e content_key of
                 None \<Rightarrow> None
               | Some feed_content \<Rightarrow>
                   (let author = (case get_truthy e author_key of
                                    Some a \<Rightarrow> a
                                  | None \<Rightarrow> extract_domain lnk)
                    in case e ''title'' of
                         None \<Rightarrow> None
                       | Some t \<Rightarrow>
                           (let title = (if length t > 2 then t else ''No title'');
                                date = (case get_truthy e date_key of
                                          Some d \<Rightarrow> Some d
                                        | None \<Rightarrow>
                                            (case get_truthy e ''published'' of
                                               Some d \<Rightarrow> Some d
                                             | None \<Rightarrow> get_truthy e ''updated''))
                            in case date of
                                 None \<Rightarrow> None
                               | Some d \<Rightarrow>
                                   NewsFromFeed_init parse title d author feed_content lnk))))"

text \<open>The three key tuples of \<open>parse_news\<close>, in the order of the source.\<close>

definition field_keys :: "(string \<times> string \<times> string) list" where
  "field_keys = [(''description'', ''dc:creator'', ''pubDate''),
                 (''summary'', ''author'', ''published''),
                 (''content'', ''author'', ''published'')]"

text \<open>The innermost loop of \<open>parse_news\<close>: the first tuple that gives an article ends it.\<close>

fun try_keys ::
  "(string \<Rightarrow> datetime option) \<Rightarrow> entry \<Rightarrow> (string \<times> string \<times> string) list
     \<Rightarrow> py_exception + NewsFromFeed option" where
  "try_keys parse e [] = Inr None"
| "try_keys parse e ((content_key, author_key, date_key) # ks) =
     (case create_article parse e content_key author_key date_key of
        Inl x \<Rightarrow> Inl x
      | Inr (Some article) \<Rightarrow> Inr (Some article)
      | Inr None \<Rightarrow> try_keys parse e ks)"

text \<open>
  The body of the loop over the entries: the log line of line 276 reads
  \<open>entry['link']\<close> outside any \<open>try\<close>, then the tuples are tried.
\<close>

definition parse_entry ::
  "(string \<Rightarrow> datetime option) \<Rightarrow> entry \<Rightarrow> py_exception + NewsFromFeed option" where
  "parse_entry parse e =
     (case e ''link'' of
        None \<Rightarrow> Inl (KeyError ''link'')
      | Some _ \<Rightarrow> try_keys parse e field_keys)"

fun parse_entries ::
  "(string \<Rightarrow> datetime option) \<Rightarrow> NewsFromFeed list \<Rightarrow> entry list
     \<Rightarrow> py_exception + NewsFromFeed list" where
  "parse_entries parse news_list [] = Inr news_list"
| "parse_entries parse news_list (e # es) =
     (case parse_entry parse e of
        Inl x \<Rightarrow> Inl x
      | Inr None \<Rightarrow> parse_entries parse news_list es
      | Inr (Some article) \<Rightarrow> parse_entries parse (news_list @ [article]) es)"

fun parse_feeds ::
  "(string \<Rightarrow> datetime option) \<Rightarrow> NewsFromFeed list \<Rightarrow> entry list list
     \<Rightarrow> py_exception + NewsFromFeed list" where
  "parse_feeds parse news_list [] = Inr news_list"
| "parse_feeds parse news_list (feed # feeds) =
     (case parse_entries parse news_list feed of
        Inl x \<Rightarrow> Inl x
      | Inr news_list' \<Rightarrow> parse_feeds parse news_list' feeds)"

text \<open>
  \<open>fetch_feed\<close> is the network and the feed parser: it is the parameter \<open>fetch\<close>, with
  \<open>None\<close> for a source that could not be read. The comprehension of line 269 keeps the
  feeds that are not \<open>None\<close> and not empty.
\<close>

definition fetched_feeds :: "(string \<Rightarrow> entry list option) \<Rightarrow> string list \<Rightarrow> entry list list" where
  "fetched_feeds fetch urls_list =
     List.map_filter
       (\<lambda>url. case fetch url of None \<Rightarrow> None | Some feed \<Rightarrow> if feed = [] then None else Some feed)
       urls_list"

text \<open>
  \<open>sorted(news_list, key=lambda news: news.date, reverse=True)\<close>: Python's sort is
  stable, also with \<open>reverse=True\<close>, so it is the stable sort on the negated date.
\<close>

definition sorted_by_date_reverse :: "NewsFromFeed list \<Rightarrow> NewsFromFeed list" where
  "sorted_by_date_reverse news_list = sort_key (\<lambda>news. - date news) news_list"

definition collect_news ::
  "(string \<Rightarrow> entry list option) \<Rightarrow> (string \<Rightarrow> datetime option) \<Rightarrow> string list
     \<Rightarrow> py_exception + NewsFromFeed list" where
  "collect_news fetch parse urls_list = parse_feeds parse [] (fetched_feeds fetch urls_list)"

definition parse_news ::
  "(string \<Rightarrow> entry list option) \<Rightarrow> (string \<Rightarrow> datetime option) \<Rightarrow> string list
     \<Rightarrow> py_exception + NewsFromFeed list" where
  "parse_news fetch parse urls_list =
     (case collect_news fetch parse urls_list of
        Inl x \<Rightarrow> Inl x
      | Inr news_list \<Rightarrow> Inr (sorted_by_date_reverse news_list))"

section \<open>Sample feeds\<close>

text \<open>
  A date parser that knows three dates, an entry with the fields \<open>link\<close>, \<open>title\<close>,
  \<open>summary\<close>, \<open>author\<close> and \<open>published\<close>, and the article built from it.
\<close>

definition ex_parse :: "string \<Rightarrow> datetime option" where
  "ex_parse s = (if s = ''2024-01-03'' then Some 3 else if s = ''2024-01-02'' then Some 2
                 else if s = ''2024-01-01'' then Some 1 else None)"

definition ex_entry :: "string \<Rightarrow> string \<Rightarrow> string \<Rightarrow> entry" where
  "ex_entry l t d = map_of [(''link'', l), (''title'', t), (''summary'', ''A long enough text''),
                            (''author'', ''Bob''), (''published'', d)]"

definition ex_article :: "string \<Rightarrow> string \<Rightarrow> datetime \<Rightarrow> NewsFromFeed" where
  "ex_article l t d = \<lparr>title = t, date = d, author = ''Bob'', summary = ''A long enough text'',
                        link = ''['' @ t @ '']('' @ clean_url l @ '')'',
                        checksum = news_checksum l\<rparr>"

text \<open>The same entry without the field \<open>title\<close>, and without the field \<open>link\<close>.\<close>

definition ex_entry_no_title :: "string \<Rightarrow> string \<Rightarrow> entry" where
  "ex_entry_no_title l d = map_of [(''link'', l), (''summary'', ''A long enough text''),
                                   (''author'', ''Bob''), (''published'', d)]"

definition ex_entry_no_link :: "string \<Rightarrow> string \<Rightarrow> entry" where
  "ex_entry_no_link t d = map_of [(''title'', t), (''summary'', ''A long enough text''),
                                  (''author'', ''Bob''), (''published'', d)]"

text \<open>Three sources with one entry each, dated 3, 2 and 1.\<close>

definition ex_fetch :: "string \<Rightarrow> entry list option" where
  "ex_fetch u =
     (if u = ''u1'' then Some [ex_entry ''http://example.com/1'' ''News'' ''2024-01-03'']
      else if u = ''u2'' then Some [ex_entry ''http://example.com/2'' ''News'' ''2024-01-02'']
      else if u = ''u3'' then Some [ex_entry ''http://example.com/3'' ''News'' ''2024-01-01'']
      else None)"

section \<open>Notions for the summary\<close>







section \<open>Properties of the delivery pipeline\<close>

lemma process_news_seen:
  "news_exists (news_tbl s) (checksum n) \<Longrightarrow> process_news e i s n = s"
  by (simp add: process_news_def)

lemma news_exists_insert:
  "news_exists (news_insert tbl d c) c' \<longleftrightarrow> c' = c \<or> news_exists tbl c'"
  by (auto simp: news_exists_def news_insert_def)

lemma process_news_sent:
  "sent (process_news e i s n) = sent s \<or>
   (sent (process_news e i s n) = sent s @ [n] \<and>
    \<not> news_exists (news_tbl s) (checksum n) \<and>
    news_exists (news_tbl (process_news e i s n)) (checksum n) \<and>
    \<not> dryRun e \<and> send_message e i n = None \<and>
    now e - date n \<le> timedelta_days 30 \<and> date n \<le> now e)"
  by (auto simp: process_news_def news_exists_insert split: option.splits)

lemma process_news_tbl_mono:
  "news_exists (news_tbl s) c \<Longrightarrow> news_exists (news_tbl (process_news e i s n)) c"
  by (auto simp: process_news_def news_exists_insert split: option.splits)

lemma main_loop_tbl_mono:
  "news_exists (news_tbl s) c \<Longrightarrow> news_exists (news_tbl (main_loop e i s ns)) c"
proof (induction ns arbitrary: i s)
  case Nil
  then show ?case by simp
next
  case (Cons n ns)
  have "news_exists (news_tbl (process_news e i s n)) c"
    using Cons.prems by (rule process_news_tbl_mono)
  then show ?case
    using Cons.IH [of "process_news e i s n" "Suc i"] by (simp add: Let_def)
qed

lemma main_loop_sent:
  "\<exists>new. sent (main_loop e i s ns) = sent s @ new \<and> distinct (map checksum new) \<and>
     set new \<subseteq> set ns \<and>
     (\<forall>a\<in>set new. fresh_for e s (main_loop e i s ns) a)"
proof (induction ns arbitrary: i s)
  case Nil
  then show ?case by simp
next
  case (Cons n ns)
  let ?s1 = "process_news e i s n"
  let ?r = "main_loop e i s (n # ns)"
  show ?case
  proof (cases "exception_cnt ?s1 > 3 \<or> news_cnt ?s1 \<ge> max_news e")
    case True
    then have r: "sent ?r = sent ?s1" "news_tbl ?r = news_tbl ?s1"
      by (auto simp: Let_def)
    from process_news_sent [of e i s n] show ?thesis
    proof
      assume "sent ?s1 = sent s"
      with r show ?thesis by simp
    next
      assume "sent ?s1 = sent s @ [n] \<and> \<not> news_exists (news_tbl s) (checksum n) \<and>
        news_exists (news_tbl ?s1) (checksum n) \<and> \<not> dryRun e \<and> send_message e i n = None \<and>
        now e - date n \<le> timedelta_days 30 \<and> date n \<le> now e"
      with r show ?thesis
        by (intro exI [of _ "[n]"]) (simp add: fresh_for_def)
    qed
  next
    case False
    then have r: "?r = main_loop e (Suc i) ?s1 ns"
      by (simp add: Let_def)
    from Cons.IH [of "Suc i" ?s1] obtain new where new:
      "sent (main_loop e (Suc i) ?s1 ns) = sent ?s1 @ new" "distinct (map checksum new)"
      "set new \<subseteq> set ns"
      "\<forall>a\<in>set new. fresh_for e ?s1 (main_loop e (Suc i) ?s1 ns) a"
      by blast
    have later: "fresh_for e s ?r a" if "a \<in> set new" for a
      using new(4) that process_news_tbl_mono [of s "checksum a" e i n]
      by (auto simp: fresh_for_def r simp del: main_loop.simps)
    from process_news_sent [of e i s n] show ?thesis
    proof
      assume "sent ?s1 = sent s"
      with new later r show ?thesis
        by (intro exI [of _ new]) (auto simp del: main_loop.simps)
    next
      assume a: "sent ?s1 = sent s @ [n] \<and> \<not> news_exists (news_tbl s) (checksum n) \<and>
        news_exists (news_tbl ?s1) (checksum n) \<and> \<not> dryRun e \<and> send_message e i n = None \<and>
        now e - date n \<le> timedelta_days 30 \<and> date n \<le> now e"
      have "checksum n \<notin> checksum ` set new"
        using new(4) a by (auto simp: fresh_for_def)
      moreover have "fresh_for e s ?r n"
        using a main_loop_tbl_mono [of ?s1 "checksum n" e "Suc i" ns]
        by (simp add: fresh_for_def r del: main_loop.simps)
      ultimately show ?thesis
        using new later r a by (intro exI [of _ "n # new"]) (auto simp del: main_loop.simps)
    qed
  qed
qed

lemma two_runs_distinct:
  "distinct (map checksum (sent (main e1 tbl xs) @ sent (main e2 (news_tbl (main e1 tbl xs)) ys)))"
proof -
  let ?r1 = "main e1 tbl xs"
  let ?r2 = "main e2 (news_tbl ?r1) ys"
  obtain new1 where n1: "sent ?r1 = new1" "distinct (map checksum new1)"
    "\<forall>a\<in>set new1. fresh_for e1 (main_init tbl) ?r1 a"
    using main_loop_sent [of e1 0 "main_init tbl" xs]
    by (auto simp: main_def main_init_def)
  obtain new2 where n2: "sent ?r2 = new2" "distinct (map checksum new2)"
    "\<forall>a\<in>set new2. fresh_for e2 (main_init (news_tbl ?r1)) ?r2 a"
    using main_loop_sent [of e2 0 "main_init (news_tbl ?r1)" ys]
    by (auto simp: main_def main_init_def)
  have "checksum a \<noteq> checksum b" if "a \<in> set new1" "b \<in> set new2" for a b
    using n1(3) n2(3) that by (auto simp: fresh_for_def main_init_def)
  with n1 n2 show ?thesis by auto
qed

lemma process_news_cnt:
  "exception_cnt (process_news e i s n) = exception_cnt s +
     (if \<not> news_exists (news_tbl s) (checksum n) \<and> now e - date n \<le> timedelta_days 30 \<and>
         date n \<le> now e \<and> \<not> dryRun e \<and>
         (\<exists>msg. send_message e i n = Some msg \<and> \<not> str_in ''can't parse entities:'' msg)
      then 1 else 0)"
  by (auto simp: process_news_def split: option.splits)

lemma process_news_cnt_mono: "exception_cnt s \<le> exception_cnt (process_news e i s n)"
  by (simp add: process_news_cnt)

lemma process_news_cnt_le: "exception_cnt (process_news e i s n) \<le> exception_cnt s + 1"
  by (simp add: process_news_cnt)

lemma main_loop_cnt_mono: "exception_cnt s \<le> exception_cnt (main_loop e i s ns)"
proof (induction ns arbitrary: i s)
  case Nil
  then show ?case by simp
next
  case (Cons n ns)
  show ?case
    using process_news_cnt_mono [of s e i n] Cons.IH [of "process_news e i s n" "Suc i"]
    by (simp add: Let_def)
qed

lemma main_loop_cnt_le:
  "exception_cnt s \<le> 3 \<Longrightarrow> exception_cnt (main_loop e i s ns) \<le> 4"
proof (induction ns arbitrary: i s)
  case Nil
  then show ?case by simp
next
  case (Cons n ns)
  show ?case
    using process_news_cnt_le [of e i s n] Cons.prems Cons.IH [of "process_news e i s n" "Suc i"]
    by (simp add: Let_def)
qed

lemma main_loop_abort:
  "exception_cnt s \<le> 3 \<Longrightarrow> exception_cnt (main_loop e i s pre) > 3 \<Longrightarrow>
   main_loop e i s (pre @ rest) = main_loop e i s pre"
proof (induction pre arbitrary: i s)
  case Nil
  then show ?case by simp
next
  case (Cons n pre)
  then show ?case
    by (simp add: Let_def split: if_splits)
qed

lemma process_news_msg:
  "exception_cnt (process_news e i s n) \<noteq> exception_cnt s \<Longrightarrow>
   \<not> dryRun e \<and> send_message e i n = Some (exception_message (process_news e i s n)) \<and>
   \<not> str_in ''can't parse entities:'' (exception_message (process_news e i s n)) \<and>
   admin_alerts (process_news e i s n) = admin_alerts s"
  by (auto simp: process_news_def split: option.splits if_splits)

lemma process_news_alerts: "admin_alerts (process_news e i s n) = admin_alerts s"
  by (auto simp: process_news_def split: option.splits)

lemma main_loop_fourth:
  "exception_cnt s \<le> 3 \<Longrightarrow> exception_cnt (main_loop e i s ns) > 3 \<Longrightarrow>
   \<exists>pre n rest msg. ns = pre @ n # rest \<and> send_message e (i + length pre) n = Some msg \<and>
     \<not> str_in ''can't parse entities:'' msg \<and> \<not> dryRun e \<and>
     exception_message (main_loop e i s ns) = msg \<and>
     admin_alerts (main_loop e i s ns) = admin_alerts s @ [alert_text msg] \<and>
     main_loop e i s ns = main_loop e i s (pre @ [n])"
proof (induction ns arbitrary: i s)
  case Nil
  then show ?case by simp
next
  case (Cons n ns)
  let ?s1 = "process_news e i s n"
  show ?case
  proof (cases "exception_cnt ?s1 > 3")
    case True
    with Cons.prems(1) have "exception_cnt ?s1 \<noteq> exception_cnt s" by simp
    from process_news_msg [OF this] True show ?thesis
      by (intro exI [of _ "[]"] exI [of _ n] exI [of _ ns] exI [of _ "exception_message ?s1"])
        (simp add: Let_def)
  next
    case False
    show ?thesis
    proof (cases "news_cnt ?s1 \<ge> max_news e")
      case True
      with False Cons.prems(2) show ?thesis by (simp add: Let_def)
    next
      case n: False
      have r: "main_loop e i s (n # ns) = main_loop e (Suc i) ?s1 ns"
        using False n by (simp add: Let_def)
      from False have "exception_cnt ?s1 \<le> 3" by simp
      from Cons.IH [OF this, of "Suc i"] Cons.prems(2) r
      obtain pre m rest msg where p: "ns = pre @ m # rest"
        "send_message e (Suc i + length pre) m = Some msg"
        "\<not> str_in ''can't parse entities:'' msg" "\<not> dryRun e"
        "exception_message (main_loop e (Suc i) ?s1 ns) = msg"
        "admin_alerts (main_loop e (Suc i) ?s1 ns) = admin_alerts ?s1 @ [alert_text msg]"
        "main_loop e (Suc i) ?s1 ns = main_loop e (Suc i) ?s1 (pre @ [m])"
        by auto
      have "main_loop e i s ((n # pre) @ [m]) = main_loop e (Suc i) ?s1 (pre @ [m])"
        using False n by (simp add: Let_def)
      with p r show ?thesis
        by (intro exI [of _ "n # pre"] exI [of _ m] exI [of _ rest] exI [of _ msg])
          (simp add: process_news_alerts del: main_loop.simps)
    qed
  qed
qed




lemmas ex_simps = ex_news_def ex_env_def main_def main_init_def process_news_def
  news_exists_def news_insert_def timedelta_days_def timedelta_hours_def Let_def alert_text_def

text \<open>
  Claim C1 (dedup idempotence). An article whose checksum already has a row in the table
  is skipped: the loop body returns the state it was given, so nothing is sent and the
  table is unchanged. Two runs over the same article list, the second starting from the
  table the first one left, deliver no checksum twice (and so no article twice), whatever
  the clock and the Telegram API do in either run.
\<close>

theorem dedup_idempotence:
  "(news_exists (news_tbl s) (checksum n) \<longrightarrow> process_news e i s n = s) \<and>
   distinct (map checksum
     (sent (main e1 tbl arts) @ sent (main e2 (news_tbl (main e1 tbl arts)) arts))) \<and>
   distinct (sent (main e1 tbl arts) @ sent (main e2 (news_tbl (main e1 tbl arts)) arts))"
proof -
  have d: "distinct (map checksum
     (sent (main e1 tbl arts) @ sent (main e2 (news_tbl (main e1 tbl arts)) arts)))"
    by (rule two_runs_distinct)
  from d have "distinct (sent (main e1 tbl arts) @ sent (main e2 (news_tbl (main e1 tbl arts)) arts))"
    by (simp only: distinct_map)
  with d show ?thesis
    by (simp add: process_news_seen)
qed

text \<open>
  A store holding \<open>c1\<close>, and a list with \<open>c1\<close> once and \<open>c2\<close> twice: the first run
  delivers \<open>c2\<close> once, the second run nothing.
\<close>

theorem dedup_idempotence_witness:
  "news_exists [(0, ''c1'')] (checksum (ex_news ''c1'' (timedelta_days 99))) \<and>
   process_news (ex_env 5 (\<lambda>i. None)) 0 (main_init [(0, ''c1'')]) (ex_news ''c1'' (timedelta_days 99))
     = main_init [(0, ''c1'')] \<and>
   sent (main (ex_env 5 (\<lambda>i. None)) [(0, ''c1'')]
     [ex_news ''c1'' (timedelta_days 99), ex_news ''c2'' (timedelta_days 98),
      ex_news ''c2'' (timedelta_days 98)]) = [ex_news ''c2'' (timedelta_days 98)] \<and>
   sent (main (ex_env 5 (\<lambda>i. None)) [(0, ''c1''), (timedelta_days 98, ''c2'')]
     [ex_news ''c1'' (timedelta_days 99), ex_news ''c2'' (timedelta_days 98),
      ex_news ''c2'' (timedelta_days 98)]) = [] \<and>
   distinct (map checksum
     (sent (main (ex_env 5 (\<lambda>i. None)) [(0, ''c1'')]
        [ex_news ''c1'' (timedelta_days 99), ex_news ''c2'' (timedelta_days 98),
         ex_news ''c2'' (timedelta_days 98)]) @
      sent (main (ex_env 5 (\<lambda>i. None))
        (news_tbl (main (ex_env 5 (\<lambda>i. None)) [(0, ''c1'')]
          [ex_news ''c1'' (timedelta_days 99), ex_news ''c2'' (timedelta_days 98),
           ex_news ''c2'' (timedelta_days 98)]))
        [ex_news ''c1'' (timedelta_days 99), ex_news ''c2'' (timedelta_days 98),
         ex_news ''c2'' (timedelta_days 98)])))"
  using dedup_idempotence [of "main_init [(0, ''c1'')]" "ex_news ''c1'' (timedelta_days 99)"
      "ex_env 5 (\<lambda>i. None)" 0 "ex_env 5 (\<lambda>i. None)" "[(0, ''c1'')]"
      "[ex_news ''c1'' (timedelta_days 99), ex_news ''c2'' (timedelta_days 98),
        ex_news ''c2'' (timedelta_days 98)]" "ex_env 5 (\<lambda>i. None)"]
  by (simp add: ex_simps)




text \<open>
  Claim C10 (the failure counter is never reset). The loop body changes \<open>exception_cnt\<close>
  only by adding 1, and only when a send was attempted and raised an exception outside
  the cannot-parse class: a skip, a delivery and a cannot-parse failure leave it as it
  is. Over the loop it never decreases. Once it has passed 3 after a prefix of the list,
  whatever the prefix mixed in between, the loop has stopped there with the counter at 4
  and one alert: the rest of the list changes nothing.
\<close>

theorem failure_counter_never_reset:
  "exception_cnt (process_news e i s n) = exception_cnt s +
     (if \<not> news_exists (news_tbl s) (checksum n) \<and> now e - date n \<le> timedelta_days 30 \<and>
         date n \<le> now e \<and> \<not> dryRun e \<and>
         (\<exists>msg. send_message e i n = Some msg \<and> \<not> str_in ''can't parse entities:'' msg)
      then 1 else 0) \<and>
   exception_cnt s \<le> exception_cnt (main_loop e i s ns) \<and>
   (exception_cnt s \<le> 3 \<and> 3 < exception_cnt (main_loop e i s pre) \<longrightarrow>
      main_loop e i s (pre @ rest) = main_loop e i s pre \<and>
      exception_cnt (main_loop e i s pre) = 4 \<and>
      (\<exists>msg. admin_alerts (main_loop e i s pre) = admin_alerts s @ [alert_text msg]))"
proof -
  have "main_loop e i s (pre @ rest) = main_loop e i s pre \<and>
      exception_cnt (main_loop e i s pre) = 4 \<and>
      (\<exists>msg. admin_alerts (main_loop e i s pre) = admin_alerts s @ [alert_text msg])"
    if h: "exception_cnt s \<le> 3" "3 < exception_cnt (main_loop e i s pre)"
  proof -
    from main_loop_fourth [OF h] have "\<exists>msg. admin_alerts (main_loop e i s pre) = admin_alerts s @ [alert_text msg]"
      by blast
    with main_loop_abort [OF h] main_loop_cnt_le [OF h(1), of e i pre] h(2) show ?thesis
      by simp
  qed
  then show ?thesis
    using process_news_cnt [of e i s n] main_loop_cnt_mono [of s e i ns] by blast
qed

text \<open>
  Failures at positions 0, 2, 4, 6 with deliveries in between: the run stops at the
  seventh article and the eighth is not delivered.
\<close>

theorem failure_counter_never_reset_witness:
  "exception_cnt (main_init []) \<le> 3 \<and>
   3 < exception_cnt (main_loop (ex_env 10 (\<lambda>i. if even i then Some ''timed out'' else None)) 0
         (main_init [])
         [ex_news ''c1'' (timedelta_days 99), ex_news ''c2'' (timedelta_days 98),
          ex_news ''c3'' (timedelta_days 97), ex_news ''c4'' (timedelta_days 96),
          ex_news ''c5'' (timedelta_days 95), ex_news ''c6'' (timedelta_days 94),
          ex_news ''c7'' (timedelta_days 93)]) \<and>
   main (ex_env 10 (\<lambda>i. if even i then Some ''timed out'' else None)) []
         ([ex_news ''c1'' (timedelta_days 99), ex_news ''c2'' (timedelta_days 98),
          ex_news ''c3'' (timedelta_days 97), ex_news ''c4'' (timedelta_days 96),
          ex_news ''c5'' (timedelta_days 95), ex_news ''c6'' (timedelta_days 94),
          ex_news ''c7'' (timedelta_days 93)] @ [ex_news ''c8'' (timedelta_days 92)]) =
   main (ex_env 10 (\<lambda>i. if even i then Some ''timed out'' else None)) []
         [ex_news ''c1'' (timedelta_days 99), ex_news ''c2'' (timedelta_days 98),
          ex_news ''c3'' (timedelta_days 97), ex_news ''c4'' (timedelta_days 96),
          ex_news ''c5'' (timedelta_days 95), ex_news ''c6'' (timedelta_days 94),
          ex_news ''c7'' (timedelta_days 93)] \<and>
   sent (main (ex_env 10 (\<lambda>i. if even i then Some ''timed out'' else None)) []
         [ex_news ''c1'' (timedelta_days 99), ex_news ''c2'' (timedelta_days 98),
          ex_news ''c3'' (timedelta_days 97), ex_news ''c4'' (timedelta_days 96),
          ex_news ''c5'' (timedelta_days 95), ex_news ''c6'' (timedelta_days 94),
          ex_news ''c7'' (timedelta_days 93), ex_news ''c8'' (timedelta_days 92)]) =
     [ex_news ''c2'' (timedelta_days 98), ex_news ''c4'' (timedelta_days 96),
      ex_news ''c6'' (timedelta_days 94)] \<and>
   admin_alerts (main (ex_env 10 (\<lambda>i. if even i then Some ''timed out'' else None)) []
         [ex_news ''c1'' (timedelta_days 99), ex_news ''c2'' (timedelta_days 98),
          ex_news ''c3'' (timedelta_days 97), ex_news ''c4'' (timedelta_days 96),
          ex_news ''c5'' (timedelta_days 95), ex_news ''c6'' (timedelta_days 94),
          ex_news ''c7'' (timedelta_days 93), ex_news ''c8'' (timedelta_days 92)]) =
     [alert_text ''timed out'']"
  using failure_counter_never_reset [of "ex_env 10 (\<lambda>i. if even i then Some ''timed out'' else None)"
      0 "main_init []" "ex_news ''c1'' (timedelta_days 99)" "[]"
      "[ex_news ''c1'' (timedelta_days 99), ex_news ''c2'' (timedelta_days 98),
          ex_news ''c3'' (timedelta_days 97), ex_news ''c4'' (timedelta_days 96),
          ex_news ''c5'' (timedelta_days 95), ex_news ''c6'' (timedelta_days 94),
          ex_news ''c7'' (timedelta_days 93)]" "[ex_news ''c8'' (timedelta_days 92)]"]
  by (simp add: ex_simps)

text \<open>
  Claim C4 (non-retryable format failure). For an unseen article inside the date window
  whose send raises: when the exception text contains \<open>can't parse entities:\<close>, the row
  (date, checksum) is appended to the table, the counter and the delivered list are
  unchanged, and every later state whose table still holds the rows skips the article;
  otherwise the counter goes up by one, the table is unchanged, and the article still
  has no row.
\<close>

theorem format_failure_recorded:
  assumes "\<not> news_exists (news_tbl s) (checksum n)"
    and "now e - date n \<le> timedelta_days 30" and "date n \<le> now e"
    and "\<not> dryRun e" and "send_message e i n = Some msg"
  shows "(str_in ''can't parse entities:'' msg \<longrightarrow>
            process_news e i s n =
              s\<lparr>exception_message := msg, news_tbl := news_tbl s @ [(date n, checksum n)]\<rparr> \<and>
            exception_cnt (process_news e i s n) = exception_cnt s \<and>
            sent (process_news e i s n) = sent s \<and>
            news_exists (news_tbl (process_news e i s n)) (checksum n) \<and>
            (\<forall>e' i' t. set (news_tbl (process_news e i s n)) \<subseteq> set (news_tbl t)
               \<longrightarrow> process_news e' i' t n = t)) \<and>
         (\<not> str_in ''can't parse entities:'' msg \<longrightarrow>
            process_news e i s n =
              s\<lparr>exception_message := msg, exception_cnt := exception_cnt s + 1\<rparr> \<and>
            news_tbl (process_news e i s n) = news_tbl s \<and>
            sent (process_news e i s n) = sent s \<and>
            \<not> news_exists (news_tbl (process_news e i s n)) (checksum n))"
proof (cases "str_in ''can't parse entities:'' msg")
  case True
  with assms have p: "process_news e i s n =
      s\<lparr>exception_message := msg, news_tbl := news_tbl s @ [(date n, checksum n)]\<rparr>"
    by (simp add: process_news_def news_insert_def)
  have "process_news e' i' t n = t"
    if "set (news_tbl (process_news e i s n)) \<subseteq> set (news_tbl t)" for e' i' t
  proof -
    from that p have "(date n, checksum n) \<in> set (news_tbl t)" by simp
    then have "news_exists (news_tbl t) (checksum n)"
      by (force simp: news_exists_def)
    then show ?thesis by (rule process_news_seen)
  qed
  moreover have "news_exists (news_tbl (process_news e i s n)) (checksum n)"
    by (simp add: p news_exists_def)
  ultimately show ?thesis using True p by simp
next
  case False
  with assms show ?thesis
    by (simp add: process_news_def)
qed

theorem format_failure_recorded_witness:
  "\<not> news_exists (news_tbl (main_init [])) (checksum (ex_news ''c1'' (timedelta_days 99))) \<and>
   now (ex_env 5 (\<lambda>i. Some ''Bad Request: can't parse entities: bad offset''))
     - date (ex_news ''c1'' (timedelta_days 99)) \<le> timedelta_days 30 \<and>
   date (ex_news ''c1'' (timedelta_days 99))
     \<le> now (ex_env 5 (\<lambda>i. Some ''Bad Request: can't parse entities: bad offset'')) \<and>
   str_in ''can't parse entities:'' ''Bad Request: can't parse entities: bad offset'' \<and>
   process_news (ex_env 5 (\<lambda>i. Some ''Bad Request: can't parse entities: bad offset'')) 0
       (main_init []) (ex_news ''c1'' (timedelta_days 99)) =
     (main_init [])\<lparr>exception_message := ''Bad Request: can't parse entities: bad offset'',
                     news_tbl := [(timedelta_days 99, ''c1'')]\<rparr> \<and>
   \<not> str_in ''can't parse entities:'' ''timed out'' \<and>
   process_news (ex_env 5 (\<lambda>i. Some ''timed out'')) 0
       (main_init []) (ex_news ''c1'' (timedelta_days 99)) =
     (main_init [])\<lparr>exception_message := ''timed out'', exception_cnt := 1\<rparr>"
  using format_failure_recorded [of "main_init []" "ex_news ''c1'' (timedelta_days 99)"
      "ex_env 5 (\<lambda>i. Some ''Bad Request: can't parse entities: bad offset'')" 0
      "''Bad Request: can't parse entities: bad offset''"]
    format_failure_recorded [of "main_init []" "ex_news ''c1'' (timedelta_days 99)"
      "ex_env 5 (\<lambda>i. Some ''timed out'')" 0 "''timed out''"]
  by (simp add: ex_news_def ex_env_def main_init_def news_exists_def timedelta_days_def)

text \<open>
  Claim C5 (delivery time window). Every article a run delivers has
  \<open>now - date \<le> 30 days\<close> and \<open>date \<le> now\<close>. An article dated 31 days back is left
  alone by the loop body and is not among the articles delivered from an empty store. An
  unseen article dated 29 days back is sent and recorded when the send returns. An
  article dated one hour ahead is left alone, no row written; processed again when the
  clock has reached its date (and it is at most 30 days old), it is sent.
\<close>

theorem delivery_time_window:
  "(\<forall>a\<in>set (sent (main e tbl arts)).
      now e - date a \<le> timedelta_days 30 \<and> date a \<le> now e) \<and>
   (date n = now e - timedelta_days 31 \<longrightarrow>
      process_news e i s n = s \<and> n \<notin> set (sent (main e [] arts))) \<and>
   (date n = now e - timedelta_days 29 \<and> \<not> news_exists (news_tbl s) (checksum n) \<and>
    \<not> dryRun e \<and> send_message e i n = None \<longrightarrow>
      sent (process_news e i s n) = sent s @ [n] \<and>
      news_tbl (process_news e i s n) = news_tbl s @ [(date n, checksum n)]) \<and>
   (date n = now e + timedelta_hours 1 \<longrightarrow>
      process_news e i s n = s \<and>
      (\<not> news_exists (news_tbl s) (checksum n) \<and> date n \<le> now e' \<and>
       now e' - date n \<le> timedelta_days 30 \<and> \<not> dryRun e' \<and> send_message e' i' n = None \<longrightarrow>
         sent (process_news e' i' (process_news e i s n) n) = sent s @ [n]))"
proof -
  have w: "\<forall>a\<in>set (sent (main e tbl arts)).
      now e - date a \<le> timedelta_days 30 \<and> date a \<le> now e" for tbl
    using main_loop_sent [of e 0 "main_init tbl" arts]
    by (auto simp: main_def main_init_def fresh_for_def)
  have old: "process_news e i s n = s \<and> n \<notin> set (sent (main e [] arts))"
    if "date n = now e - timedelta_days 31"
  proof -
    from that have "\<not> now e - date n \<le> timedelta_days 30"
      by (simp add: timedelta_days_def)
    with w [of "[]"] show ?thesis
      by (auto simp: process_news_def)
  qed
  have fresh: "sent (process_news e i s n) = sent s @ [n] \<and>
      news_tbl (process_news e i s n) = news_tbl s @ [(date n, checksum n)]"
    if "date n = now e - timedelta_days 29" "\<not> news_exists (news_tbl s) (checksum n)"
      "\<not> dryRun e" "send_message e i n = None"
    using that by (simp add: process_news_def timedelta_days_def news_insert_def)
  have future: "process_news e i s n = s" if "date n = now e + timedelta_hours 1"
    using that by (simp add: process_news_def timedelta_days_def timedelta_hours_def)
  have later: "sent (process_news e' i' s n) = sent s @ [n]"
    if "\<not> news_exists (news_tbl s) (checksum n)" "date n \<le> now e'"
       "now e' - date n \<le> timedelta_days 30" "\<not> dryRun e'" "send_message e' i' n = None"
    using that by (simp add: process_news_def)
  from w old fresh future later show ?thesis by metis
qed

text \<open>
  At day 100: an article of day 69 (31 days old), one of day 71 (29 days old), and one
  dated an hour ahead, processed again two hours later.
\<close>

theorem delivery_time_window_witness:
  "date (ex_news ''c1'' (timedelta_days 69)) = now (ex_env 5 (\<lambda>i. None)) - timedelta_days 31 \<and>
   process_news (ex_env 5 (\<lambda>i. None)) 0 (main_init []) (ex_news ''c1'' (timedelta_days 69))
     = main_init [] \<and>
   sent (main (ex_env 5 (\<lambda>i. None)) [] [ex_news ''c1'' (timedelta_days 69)]) = [] \<and>
   date (ex_news ''c2'' (timedelta_days 71)) = now (ex_env 5 (\<lambda>i. None)) - timedelta_days 29 \<and>
   sent (process_news (ex_env 5 (\<lambda>i. None)) 0 (main_init []) (ex_news ''c2'' (timedelta_days 71)))
     = [ex_news ''c2'' (timedelta_days 71)] \<and>
   sent (main (ex_env 5 (\<lambda>i. None)) [] [ex_news ''c2'' (timedelta_days 71)])
     = [ex_news ''c2'' (timedelta_days 71)] \<and>
   date (ex_news ''c3'' (timedelta_days 100 + timedelta_hours 1))
     = now (ex_env 5 (\<lambda>i. None)) + timedelta_hours 1 \<and>
   process_news (ex_env 5 (\<lambda>i. None)) 0 (main_init [])
       (ex_news ''c3'' (timedelta_days 100 + timedelta_hours 1)) = main_init [] \<and>
   sent (process_news ((ex_env 5 (\<lambda>i. None))\<lparr>now := timedelta_days 100 + timedelta_hours 2\<rparr>) 0
       (process_news (ex_env 5 (\<lambda>i. None)) 0 (main_init [])
          (ex_news ''c3'' (timedelta_days 100 + timedelta_hours 1)))
       (ex_news ''c3'' (timedelta_days 100 + timedelta_hours 1)))
     = [ex_news ''c3'' (timedelta_days 100 + timedelta_hours 1)]"
  using delivery_time_window [of "ex_env 5 (\<lambda>i. None)" "[]" "[ex_news ''c1'' (timedelta_days 69)]"
      "ex_news ''c1'' (timedelta_days 69)" 0 "main_init []"]
    delivery_time_window [of "ex_env 5 (\<lambda>i. None)" "[]" "[ex_news ''c2'' (timedelta_days 71)]"
      "ex_news ''c2'' (timedelta_days 71)" 0 "main_init []"]
    delivery_time_window [of "ex_env 5 (\<lambda>i. None)" "[]" "[]"
      "ex_news ''c3'' (timedelta_days 100 + timedelta_hours 1)" 0 "main_init []"
      "(ex_env 5 (\<lambda>i. None))\<lparr>now := timedelta_days 100 + timedelta_hours 2\<rparr>" 0]
  by (simp add: ex_simps)

section \<open>Properties of the checksum\<close>












section \<open>Properties of the aggregator\<close>

lemma create_article_error:
  "create_article parse e ck ak dk = Inl x \<longleftrightarrow> e ''link'' = None \<and> x = KeyError ''link''"
  by (auto simp: create_article_def split: option.splits)

lemma try_keys_error:
  "try_keys parse e ks = Inl x \<Longrightarrow> e ''link'' = None \<and> x = KeyError ''link''"
proof (induction ks)
  case Nil
  then show ?case by simp
next
  case (Cons k ks)
  obtain ck ak dk where k: "k = (ck, ak, dk)" by (cases k)
  show ?case
  proof (cases "create_article parse e ck ak dk")
    case (Inl y)
    with Cons.prems k create_article_error [of parse e ck ak dk y] show ?thesis by simp
  next
    case (Inr r)
    with Cons k show ?thesis by (cases r) simp_all
  qed
qed

lemma parse_entry_error:
  "parse_entry parse e = Inl x \<longleftrightarrow> e ''link'' = None \<and> x = KeyError ''link''"
  using try_keys_error [of parse e field_keys x]
  by (auto simp: parse_entry_def split: option.splits)

lemma parse_entry_link:
  assumes "e ''link'' \<noteq> None"
  shows "\<exists>r. parse_entry parse e = Inr r"
proof (cases "parse_entry parse e")
  case (Inl x)
  with parse_entry_error [of parse e x] assms show ?thesis by simp
next
  case (Inr r)
  then show ?thesis by simp
qed

text \<open>The articles of one feed, when every entry has a link.\<close>

lemma parse_entries_acc:
  "parse_entries parse acc es =
     (if \<forall>e\<in>set es. e ''link'' \<noteq> None
      then Inr (acc @ List.map_filter (\<lambda>e. projr (parse_entry parse e)) es)
      else Inl (KeyError ''link''))"
proof (induction es arbitrary: acc)
  case Nil
  then show ?case by simp
next
  case (Cons e es)
  show ?case
  proof (cases "parse_entry parse e")
    case (Inl x)
    with parse_entry_error [of parse e x] show ?thesis by simp
  next
    case (Inr r)
    with parse_entry_error [of parse e] have "e ''link'' \<noteq> None" by auto
    with Inr Cons.IH show ?thesis by (cases r) simp_all
  qed
qed

lemma parse_feeds_acc:
  "parse_feeds parse acc feeds =
     (if \<forall>feed\<in>set feeds. \<forall>e\<in>set feed. e ''link'' \<noteq> None
      then Inr (acc @ concat (map (List.map_filter (\<lambda>e. projr (parse_entry parse e))) feeds))
      else Inl (KeyError ''link''))"
proof (induction feeds arbitrary: acc)
  case Nil
  then show ?case by simp
next
  case (Cons feed feeds)
  show ?case
    by (simp add: parse_entries_acc Cons.IH)
qed

lemma mset_fetched_feeds:
  "mset urls' = mset urls \<Longrightarrow> mset (fetched_feeds fetch urls') = mset (fetched_feeds fetch urls)"
  by (simp add: fetched_feeds_def List.map_filter_def)

lemma mset_concat_map:
  "mset xs = mset ys \<Longrightarrow> mset (concat (map h xs)) = mset (concat (map h ys))"
proof -
  assume a: "mset xs = mset ys"
  have "mset (concat (map h zs)) = sum_mset (image_mset (\<lambda>z. mset (h z)) (mset zs))" for zs
    by (induction zs) simp_all
  with a show ?thesis by simp
qed

lemma collect_news_perm:
  assumes "mset urls' = mset urls"
    and "collect_news fetch parse urls = Inr ys"
    and "collect_news fetch parse urls' = Inr ys'"
  shows "mset ys' = mset ys"
proof -
  let ?h = "List.map_filter (\<lambda>e. projr (parse_entry parse e))"
  from assms(2) have "ys = concat (map ?h (fetched_feeds fetch urls))"
    by (simp add: collect_news_def parse_feeds_acc split: if_splits)
  moreover from assms(3) have "ys' = concat (map ?h (fetched_feeds fetch urls'))"
    by (simp add: collect_news_def parse_feeds_acc split: if_splits)
  ultimately show ?thesis
    using mset_concat_map [OF mset_fetched_feeds [OF assms(1)], of ?h fetch] by simp
qed

lemma sorted_by_date_reverse_nth:
  "i < j \<Longrightarrow> j < length xs \<Longrightarrow>
   date (sorted_by_date_reverse xs ! j) \<le> date (sorted_by_date_reverse xs ! i)"
proof -
  assume a: "i < j" "j < length xs"
  let ?s = "sorted_by_date_reverse xs"
  have "sorted (map (\<lambda>n. - date n) ?s)"
    by (simp add: sorted_by_date_reverse_def)
  moreover have "length ?s = length xs"
    by (simp add: sorted_by_date_reverse_def)
  ultimately have "map (\<lambda>n. - date n) ?s ! i \<le> map (\<lambda>n. - date n) ?s ! j"
    using a by (intro sorted_nth_mono) simp_all
  with a \<open>length ?s = length xs\<close> show ?thesis by simp
qed

lemma sorted_by_date_reverse_dates:
  assumes "mset xs = mset ys"
  shows "map date (sorted_by_date_reverse xs) = map date (sorted_by_date_reverse ys)"
proof -
  let ?k = "\<lambda>n. - date n"
  have "sort (map ?k xs) = map ?k (sort_key ?k xs)" for xs :: "NewsFromFeed list"
    by (rule properties_for_sort) simp_all
  moreover have "mset (map ?k xs) = mset (map ?k ys)"
    using assms by simp
  then have "sort (map ?k xs) = sort (map ?k ys)"
    by (metis properties_for_sort sorted_sort mset_sort)
  ultimately have "map ?k (sort_key ?k xs) = map ?k (sort_key ?k ys)" by simp
  then have "map (uminus \<circ> ?k) (sort_key ?k xs) = map (uminus \<circ> ?k) (sort_key ?k ys)"
    by (metis map_map)
  then show ?thesis by (simp add: sorted_by_date_reverse_def comp_def)
qed

lemma same_dates_same_list:
  assumes "map date xs' = map date xs" and "mset xs' = mset xs" and "distinct (map date xs)"
  shows "xs' = xs"
proof -
  from assms(2) have "set xs' = set xs" by (rule mset_eq_setD)
  moreover from assms(3) have "inj_on date (set xs)" by (simp add: distinct_map)
  ultimately have "inj_on date (set xs' \<union> set xs)" by simp
  with assms(1) show ?thesis by (rule map_inj_on)
qed

text \<open>
  Claim C6 (aggregator output ordering). \<open>parse_news\<close> returns a list whenever every
  entry of every fetched feed has a link. The list it returns is sorted by date,
  descending: for positions \<open>i < j\<close> the date at \<open>i\<close> is at least the date at \<open>j\<close>. It
  is a permutation of the articles collected source by source and entry by entry, and
  the articles of one date keep the order in which they were collected. For the same
  sources in any other order the returned dates are the same, the articles are the same
  multiset, and when no two articles share a date the list itself is the same.
\<close>

theorem aggregator_sorted:
  "((\<forall>feed\<in>set (fetched_feeds fetch urls). \<forall>e\<in>set feed. e ''link'' \<noteq> None) \<longrightarrow>
      (\<exists>xs. parse_news fetch parse urls = Inr xs)) \<and>
   (parse_news fetch parse urls = Inr xs \<longrightarrow>
     (\<forall>i j. i < j \<and> j < length xs \<longrightarrow> date (xs ! j) \<le> date (xs ! i)) \<and>
     (\<exists>ys. collect_news fetch parse urls = Inr ys \<and> mset xs = mset ys \<and>
           (\<forall>d. filter (\<lambda>a. date a = d) xs = filter (\<lambda>a. date a = d) ys)) \<and>
     (\<forall>urls' xs'. mset urls' = mset urls \<and> parse_news fetch parse urls' = Inr xs' \<longrightarrow>
           map date xs' = map date xs \<and> mset xs' = mset xs \<and>
           (distinct (map date xs) \<longrightarrow> xs' = xs)))"
proof -
  have total: "\<exists>xs. parse_news fetch parse urls = Inr xs"
    if "\<forall>feed\<in>set (fetched_feeds fetch urls). \<forall>e\<in>set feed. e ''link'' \<noteq> None"
    using that by (simp add: parse_news_def collect_news_def parse_feeds_acc)
  have rest: "(\<forall>i j. i < j \<and> j < length xs \<longrightarrow> date (xs ! j) \<le> date (xs ! i)) \<and>
     (\<exists>ys. collect_news fetch parse urls = Inr ys \<and> mset xs = mset ys \<and>
           (\<forall>d. filter (\<lambda>a. date a = d) xs = filter (\<lambda>a. date a = d) ys)) \<and>
     (\<forall>urls' xs'. mset urls' = mset urls \<and> parse_news fetch parse urls' = Inr xs' \<longrightarrow>
           map date xs' = map date xs \<and> mset xs' = mset xs \<and>
           (distinct (map date xs) \<longrightarrow> xs' = xs))"
    if p: "parse_news fetch parse urls = Inr xs"
  proof -
    from p obtain ys where ys: "collect_news fetch parse urls = Inr ys"
      "xs = sorted_by_date_reverse ys"
      by (auto simp: parse_news_def split: sum.splits)
    have len: "length xs = length ys"
      by (simp add: ys(2) sorted_by_date_reverse_def)
    have 1: "\<forall>i j. i < j \<and> j < length xs \<longrightarrow> date (xs ! j) \<le> date (xs ! i)"
      using sorted_by_date_reverse_nth [of _ _ ys] len by (simp add: ys(2))
    have m: "mset xs = mset ys"
      by (simp add: ys(2) sorted_by_date_reverse_def)
    have st: "filter (\<lambda>a. date a = d) xs = filter (\<lambda>a. date a = d) ys" for d
      using sort_key_stable [of "\<lambda>n. - date n" "- d" ys]
      by (simp add: ys(2) sorted_by_date_reverse_def)
    have 3: "map date xs' = map date xs \<and> mset xs' = mset xs \<and>
           (distinct (map date xs) \<longrightarrow> xs' = xs)"
      if q: "mset urls' = mset urls" "parse_news fetch parse urls' = Inr xs'" for urls' xs'
    proof -
      from q(2) obtain ys' where ys': "collect_news fetch parse urls' = Inr ys'"
        "xs' = sorted_by_date_reverse ys'"
        by (auto simp: parse_news_def split: sum.splits)
      have mm: "mset ys' = mset ys"
        using collect_news_perm [OF q(1) ys(1) ys'(1)] .
      have d: "map date xs' = map date xs"
        using sorted_by_date_reverse_dates [OF mm] by (simp add: ys(2) ys'(2))
      have m': "mset xs' = mset xs"
        using mm m by (simp add: ys'(2) sorted_by_date_reverse_def)
      from d m' same_dates_same_list [of xs' xs] show ?thesis by blast
    qed
    from 1 ys(1) m st 3 show ?thesis by blast
  qed
  from total rest show ?thesis by blast
qed

lemma ex_text_clean:
  "remove_links (remove_html ''A long enough text'') = ''A long enough text''"
  by code_simp

lemma ex_text_summary: "news_summary ''A long enough text'' = ''A long enough text''"
  by code_simp

lemma ex_strips:
  "str_strip ''Bob'' = ''Bob''" "str_strip ''News'' = ''News''"
  "str_strip ''No title'' = ''No title''"
  by code_simp+

lemma ex_parse_nonempty: "ex_parse d = Some k \<Longrightarrow> d \<noteq> []"
  by (auto simp: ex_parse_def)

lemma create_article_ex_first:
  "create_article ex_parse (ex_entry l t d) ''description'' ''dc:creator'' ''pubDate'' = Inr None"
  by (simp add: create_article_def ex_entry_def extract_feed_content_def get_truthy_def)

lemma create_article_ex_second:
  assumes "ex_parse d = Some k"
  shows "create_article ex_parse (ex_entry l t d) ''summary'' ''author'' ''published'' =
     Inr (Some (ex_article l (str_strip (if 2 < length t then t else ''No title'')) k))"
  using assms ex_parse_nonempty [OF assms]
  by (simp add: create_article_def ex_entry_def extract_feed_content_def get_truthy_def
      ex_text_clean ex_text_summary ex_strips NewsFromFeed_init_def ex_article_def Let_def)

lemma parse_entry_ex:
  assumes "ex_parse d = Some k"
  shows "parse_entry ex_parse (ex_entry l t d) =
     Inr (Some (ex_article l (str_strip (if 2 < length t then t else ''No title'')) k))"
proof -
  have "ex_entry l t d ''link'' = Some l" by (simp add: ex_entry_def)
  then show ?thesis
    by (simp add: parse_entry_def field_keys_def create_article_ex_first
        create_article_ex_second [OF assms])
qed

lemma ex_parse_values:
  "ex_parse ''2024-01-03'' = Some 3" "ex_parse ''2024-01-02'' = Some 2"
  "ex_parse ''2024-01-01'' = Some 1"
  by (simp_all add: ex_parse_def)

lemma parse_entry_ex_news:
  "parse_entry ex_parse (ex_entry l ''News'' ''2024-01-03'') = Inr (Some (ex_article l ''News'' 3))"
  "parse_entry ex_parse (ex_entry l ''News'' ''2024-01-02'') = Inr (Some (ex_article l ''News'' 2))"
  "parse_entry ex_parse (ex_entry l ''News'' ''2024-01-01'') = Inr (Some (ex_article l ''News'' 1))"
  by (simp_all add: parse_entry_ex ex_parse_values ex_strips)

text \<open>
  Three sources with one article each, dated 3, 2 and 1: fetched in the order
  \<open>u3, u1, u2\<close> they are collected as 1, 3, 2 and returned as 3, 2, 1.
\<close>

theorem aggregator_sorted_witness:
  "parse_news ex_fetch ex_parse [''u1'', ''u2'', ''u3''] =
     Inr [ex_article ''http://example.com/1'' ''News'' 3,
          ex_article ''http://example.com/2'' ''News'' 2,
          ex_article ''http://example.com/3'' ''News'' 1] \<and>
   mset [''u3'', ''u1'', ''u2''] = mset [''u1'', ''u2'', ''u3''] \<and>
   parse_news ex_fetch ex_parse [''u3'', ''u1'', ''u2''] =
     Inr [ex_article ''http://example.com/1'' ''News'' 3,
          ex_article ''http://example.com/2'' ''News'' 2,
          ex_article ''http://example.com/3'' ''News'' 1] \<and>
   collect_news ex_fetch ex_parse [''u3'', ''u1'', ''u2''] =
     Inr [ex_article ''http://example.com/3'' ''News'' 1,
          ex_article ''http://example.com/1'' ''News'' 3,
          ex_article ''http://example.com/2'' ''News'' 2] \<and>
   distinct (map date [ex_article ''http://example.com/1'' ''News'' 3,
          ex_article ''http://example.com/2'' ''News'' 2,
          ex_article ''http://example.com/3'' ''News'' 1])"
proof -
  have c1: "collect_news ex_fetch ex_parse [''u1'', ''u2'', ''u3''] =
     Inr [ex_article ''http://example.com/1'' ''News'' 3,
          ex_article ''http://example.com/2'' ''News'' 2,
          ex_article ''http://example.com/3'' ''News'' 1]"
    by (simp add: collect_news_def fetched_feeds_def ex_fetch_def parse_entry_ex_news)
  have c2: "collect_news ex_fetch ex_parse [''u3'', ''u1'', ''u2''] =
     Inr [ex_article ''http://example.com/3'' ''News'' 1,
          ex_article ''http://example.com/1'' ''News'' 3,
          ex_article ''http://example.com/2'' ''News'' 2]"
    by (simp add: collect_news_def fetched_feeds_def ex_fetch_def parse_entry_ex_news)
  have d: "date (ex_article l t k) = k" for l t k
    by (simp add: ex_article_def)
  have p1: "parse_news ex_fetch ex_parse [''u1'', ''u2'', ''u3''] =
     Inr [ex_article ''http://example.com/1'' ''News'' 3,
          ex_article ''http://example.com/2'' ''News'' 2,
          ex_article ''http://example.com/3'' ''News'' 1]"
    by (simp add: parse_news_def c1 sorted_by_date_reverse_def d)
  have p2: "\<exists>xs'. parse_news ex_fetch ex_parse [''u3'', ''u1'', ''u2''] = Inr xs'"
    by (simp add: parse_news_def c2)
  have m: "mset [''u3'', ''u1'', ''u2''] = mset [''u1'', ''u2'', ''u3'']"
    by (simp add: add_mset_commute)
  have di: "distinct (map date [ex_article ''http://example.com/1'' ''News'' 3,
          ex_article ''http://example.com/2'' ''News'' 2,
          ex_article ''http://example.com/3'' ''News'' 1])"
    by (simp add: d)
  from p2 obtain xs' where xs': "parse_news ex_fetch ex_parse [''u3'', ''u1'', ''u2''] = Inr xs'"
    by blast
  have "xs' = [ex_article ''http://example.com/1'' ''News'' 3,
          ex_article ''http://example.com/2'' ''News'' 2,
          ex_article ''http://example.com/3'' ''News'' 1]"
    using aggregator_sorted [of ex_fetch "[''u1'', ''u2'', ''u3'']" ex_parse
        "[ex_article ''http://example.com/1'' ''News'' 3,
          ex_article ''http://example.com/2'' ''News'' 2,
          ex_article ''http://example.com/3'' ''News'' 1]"] p1 m xs' di
    by blast
  with xs' p1 m c2 di show ?thesis by simp
qed

text \<open>
  Claim C7 (field-candidate fallback). For an entry that has a link, \<open>parse_news\<close> tries
  \<open>(description, dc:creator, pubDate)\<close>, then \<open>(summary, author, published)\<close>, then
  \<open>(content, author, published)\<close>, takes the first article it gets and tries no later
  tuple; with no article the entry adds nothing to the list. An entry with a link, a
  title, no description, a summary that stays longer than 10 characters after cleaning
  and a \<open>published\<close> date that parses gives an article through the second tuple.
  An entry without a link is not dropped: the \<open>KeyError\<close> leaves \<open>create_article\<close> and
  \<open>parse_news\<close>, so the whole run of \<open>parse_news\<close> ends with it.
\<close>

theorem field_fallback:
  "(e ''link'' \<noteq> None \<longrightarrow>
      parse_entry parse e =
        (case create_article parse e ''description'' ''dc:creator'' ''pubDate'' of
           Inr (Some a) \<Rightarrow> Inr (Some a)
         | _ \<Rightarrow>
           (case create_article parse e ''summary'' ''author'' ''published'' of
              Inr (Some a) \<Rightarrow> Inr (Some a)
            | _ \<Rightarrow>
              (case create_article parse e ''content'' ''author'' ''published'' of
                 Inr (Some a) \<Rightarrow> Inr (Some a)
               | _ \<Rightarrow> Inr None))) \<and>
      (parse_entry parse e = Inr None \<longrightarrow>
         parse_entries parse acc (e # es) = parse_entries parse acc es) \<and>
      (parse_entry parse e = Inr (Some a) \<longrightarrow>
         parse_entries parse acc (e # es) = parse_entries parse (acc @ [a]) es)) \<and>
   (e ''link'' = Some l \<and> e ''title'' = Some t \<and> get_truthy e ''description'' = None \<and>
    get_truthy e ''summary'' = Some c \<and> 10 < length (remove_links (remove_html c)) \<and>
    get_truthy e ''published'' = Some d \<and> parse d = Some k \<longrightarrow>
      (\<exists>n. create_article parse e ''summary'' ''author'' ''published'' = Inr (Some n) \<and>
           parse_entry parse e = Inr (Some n))) \<and>
   (e ''link'' = None \<longrightarrow>
      create_article parse e ck ak dk = Inl (KeyError ''link'') \<and>
      parse_entry parse e = Inl (KeyError ''link'') \<and>
      (e \<in> set feed \<and> feed \<in> set (fetched_feeds fetch urls) \<longrightarrow>
         parse_news fetch parse urls = Inl (KeyError ''link'')))"
proof -
  have ord: "parse_entry parse e =
        (case create_article parse e ''description'' ''dc:creator'' ''pubDate'' of
           Inr (Some a) \<Rightarrow> Inr (Some a)
         | _ \<Rightarrow>
           (case create_article parse e ''summary'' ''author'' ''published'' of
              Inr (Some a) \<Rightarrow> Inr (Some a)
            | _ \<Rightarrow>
              (case create_article parse e ''content'' ''author'' ''published'' of
                 Inr (Some a) \<Rightarrow> Inr (Some a)
               | _ \<Rightarrow> Inr None)))"
    if "e ''link'' \<noteq> None"
    using that create_article_error [of parse e]
    by (auto simp: parse_entry_def field_keys_def split: sum.splits option.splits)
  have second: "\<exists>n. create_article parse e ''summary'' ''author'' ''published'' = Inr (Some n) \<and>
           parse_entry parse e = Inr (Some n)"
    if h: "e ''link'' = Some l" "e ''title'' = Some t" "get_truthy e ''description'' = None"
      "get_truthy e ''summary'' = Some c" "10 < length (remove_links (remove_html c))"
      "get_truthy e ''published'' = Some d" "parse d = Some k"
  proof -
    have 1: "create_article parse e ''description'' ''dc:creator'' ''pubDate'' = Inr None"
      using h(1,3) by (simp add: create_article_def extract_feed_content_def)
    obtain n where 2: "create_article parse e ''summary'' ''author'' ''published'' = Inr (Some n)"
      using h by (simp add: create_article_def extract_feed_content_def NewsFromFeed_init_def
          Let_def)
    from h(1) 1 2 show ?thesis
      by (simp add: parse_entry_def field_keys_def)
  qed
  have bad: "parse_news fetch parse urls = Inl (KeyError ''link'')"
    if "e ''link'' = None" "e \<in> set feed" "feed \<in> set (fetched_feeds fetch urls)"
  proof -
    from that have "\<not> (\<forall>feed\<in>set (fetched_feeds fetch urls). \<forall>e\<in>set feed. e ''link'' \<noteq> None)"
      by blast
    then show ?thesis
      by (simp add: parse_news_def collect_news_def parse_feeds_acc)
  qed
  show ?thesis
    using ord second bad create_article_error [of parse e ck ak dk] parse_entry_error [of parse e]
    by (auto simp del: parse_entries.simps simp add: parse_entries.simps(2) [of parse acc e es])
qed

lemma parse_entry_ex_bad_date:
  "ex_parse d = None \<Longrightarrow> parse_entry ex_parse (ex_entry l t d) = Inr None"
  by (simp add: parse_entry_def field_keys_def create_article_def ex_entry_def
      extract_feed_content_def get_truthy_def ex_text_clean NewsFromFeed_init_def Let_def)

text \<open>
  The sample entry gives its article through the second tuple; with a date that does not
  parse it is dropped; without a link it makes \<open>parse_news\<close> raise, although the entry
  before it is a good one.
\<close>

theorem field_fallback_witness:
  "ex_entry ''http://example.com/2'' ''News'' ''2024-01-02'' ''link'' = Some ''http://example.com/2'' \<and>
   create_article ex_parse (ex_entry ''http://example.com/2'' ''News'' ''2024-01-02'')
     ''description'' ''dc:creator'' ''pubDate'' = Inr None \<and>
   create_article ex_parse (ex_entry ''http://example.com/2'' ''News'' ''2024-01-02'')
     ''summary'' ''author'' ''published'' = Inr (Some (ex_article ''http://example.com/2'' ''News'' 2)) \<and>
   parse_entry ex_parse (ex_entry ''http://example.com/2'' ''News'' ''2024-01-02'')
     = Inr (Some (ex_article ''http://example.com/2'' ''News'' 2)) \<and>
   parse_entry ex_parse (ex_entry ''http://example.com/2'' ''News'' ''someday'') = Inr None \<and>
   parse_entries ex_parse []
     [ex_entry ''http://example.com/2'' ''News'' ''someday'',
      ex_entry ''http://example.com/2'' ''News'' ''2024-01-02'']
     = Inr [ex_article ''http://example.com/2'' ''News'' 2] \<and>
   ex_entry_no_link ''News'' ''2024-01-02'' ''link'' = None \<and>
   parse_entry ex_parse (ex_entry_no_link ''News'' ''2024-01-02'') = Inl (KeyError ''link'') \<and>
   parse_news
     (\<lambda>u. Some [ex_entry ''http://example.com/2'' ''News'' ''2024-01-02'',
                 ex_entry_no_link ''News'' ''2024-01-02''])
     ex_parse [''u1''] = Inl (KeyError ''link'')"
proof -
  let ?e = "ex_entry ''http://example.com/2'' ''News'' ''2024-01-02''"
  let ?b = "ex_entry ''http://example.com/2'' ''News'' ''someday''"
  let ?n = "ex_entry_no_link ''News'' ''2024-01-02''"
  let ?fetch = "\<lambda>u::string. Some [?e, ?n]"
  have l: "?e ''link'' = Some ''http://example.com/2''" "?b ''link'' = Some ''http://example.com/2''"
    "?e ''title'' = Some ''News''"
    by (simp_all add: ex_entry_def)
  have g: "get_truthy ?e ''description'' = None" "get_truthy ?e ''summary'' = Some ''A long enough text''"
    "get_truthy ?e ''published'' = Some ''2024-01-02''"
    by (simp_all add: ex_entry_def get_truthy_def)
  have len: "10 < length (remove_links (remove_html ''A long enough text''))"
    by (simp add: ex_text_clean)
  have nl: "?n ''link'' = None"
    by (simp add: ex_entry_no_link_def)
  have f: "fetched_feeds ?fetch [''u1''] = [[?e, ?n]]"
    by (simp add: fetched_feeds_def)
  have bad: "parse_entry ex_parse ?b = Inr None"
    by (rule parse_entry_ex_bad_date) (simp add: ex_parse_def)
  have good: "parse_entry ex_parse ?e = Inr (Some (ex_article ''http://example.com/2'' ''News'' 2))"
    by (simp add: parse_entry_ex_news)
  have second: "create_article ex_parse ?e ''summary'' ''author'' ''published'' =
      Inr (Some (ex_article ''http://example.com/2'' ''News'' 2))"
    using create_article_ex_second [of "''2024-01-02''" 2 "''http://example.com/2''" "''News''"]
    by (simp add: ex_parse_values ex_strips)
  show ?thesis
    using field_fallback [where e = ?e and parse = ex_parse and acc = "[]" and es = "[]"
        and a = "ex_article ''http://example.com/2'' ''News'' 2"
        and l = "''http://example.com/2''" and t = "''News''" and c = "''A long enough text''"
        and d = "''2024-01-02''" and k = 2]
      field_fallback [where e = ?b and parse = ex_parse and acc = "[]" and es = "[?e]"]
      field_fallback [where e = ?n and parse = ex_parse and ck = "''summary''"
        and ak = "''author''" and dk = "''published''" and feed = "[?e, ?n]"
        and fetch = ?fetch and urls = "[''u1'']"]
      l g len nl f bad good second
    by (simp add: ex_parse_values create_article_ex_first)
qed

text \<open>
  Claim C8 (title resolution). For an entry with a link, content and a date that parses:
  a title field of at most two characters gives an article whose title is \<open>No title\<close>.
  When the title field is missing, \<open>entry["title"]\<close> raises \<open>KeyError\<close>, the handler
  returns \<open>None\<close> for every tuple, and the entry is dropped.
\<close>

theorem title_resolution:
  "(e ''link'' = Some l \<and> e ''title'' = Some t \<and> length t \<le> 2 \<and>
    extract_feed_content e ck = Some c \<and> get_truthy e dk = Some d \<and> parse d = Some k \<longrightarrow>
      (\<exists>a. create_article parse e ck ak dk = Inr (Some a) \<and> title a = ''No title'')) \<and>
   (e ''link'' \<noteq> None \<and> e ''title'' = None \<longrightarrow>
      create_article parse e ck ak dk = Inr None \<and>
      parse_entry parse e = Inr None \<and>
      parse_entries parse acc (e # es) = parse_entries parse acc es)"
proof -
  have short: "\<exists>a. create_article parse e ck ak dk = Inr (Some a) \<and> title a = ''No title''"
    if "e ''link'' = Some l" "e ''title'' = Some t" "length t \<le> 2"
      "extract_feed_content e ck = Some c" "get_truthy e dk = Some d" "parse d = Some k"
    using that by (simp add: create_article_def NewsFromFeed_init_def Let_def ex_strips)
  have none: "create_article parse e ck ak dk = Inr None"
    if "e ''link'' \<noteq> None" "e ''title'' = None" for ck ak dk
    using that by (auto simp: create_article_def Let_def split: option.splits)
  have drop: "parse_entry parse e = Inr None"
    if "e ''link'' \<noteq> None" "e ''title'' = None"
    using that none [OF that] by (auto simp: parse_entry_def field_keys_def)
  from short none drop show ?thesis
    by (auto simp del: parse_entries.simps simp add: parse_entries.simps(2) [of parse acc e es])
qed

text \<open>
  The sample entry with an empty title, and the same entry without the title field.
\<close>

theorem title_resolution_witness:
  "ex_entry ''http://example.com/2'' '''' ''2024-01-02'' ''link'' = Some ''http://example.com/2'' \<and>
   ex_entry ''http://example.com/2'' '''' ''2024-01-02'' ''title'' = Some '''' \<and>
   extract_feed_content (ex_entry ''http://example.com/2'' '''' ''2024-01-02'') ''summary''
     = Some ''A long enough text'' \<and>
   create_article ex_parse (ex_entry ''http://example.com/2'' '''' ''2024-01-02'')
     ''summary'' ''author'' ''published''
     = Inr (Some (ex_article ''http://example.com/2'' ''No title'' 2)) \<and>
   title (ex_article ''http://example.com/2'' ''No title'' 2) = ''No title'' \<and>
   ex_entry_no_title ''http://example.com/2'' ''2024-01-02'' ''link'' = Some ''http://example.com/2'' \<and>
   ex_entry_no_title ''http://example.com/2'' ''2024-01-02'' ''title'' = None \<and>
   create_article ex_parse (ex_entry_no_title ''http://example.com/2'' ''2024-01-02'')
     ''summary'' ''author'' ''published'' = Inr None \<and>
   parse_entry ex_parse (ex_entry_no_title ''http://example.com/2'' ''2024-01-02'') = Inr None \<and>
   parse_news (\<lambda>u. Some [ex_entry_no_title ''http://example.com/2'' ''2024-01-02''])
     ex_parse [''u1''] = Inr []"
proof -
  let ?e = "ex_entry ''http://example.com/2'' '''' ''2024-01-02''"
  let ?n = "ex_entry_no_title ''http://example.com/2'' ''2024-01-02''"
  have e: "?e ''link'' = Some ''http://example.com/2''" "?e ''title'' = Some ''''"
    "get_truthy ?e ''published'' = Some ''2024-01-02''"
    "extract_feed_content ?e ''summary'' = Some ''A long enough text''"
    by (simp_all add: ex_entry_def get_truthy_def extract_feed_content_def ex_text_clean)
  have n: "?n ''link'' = Some ''http://example.com/2''" "?n ''title'' = None"
    by (simp_all add: ex_entry_no_title_def)
  have c: "create_article ex_parse ?e ''summary'' ''author'' ''published''
     = Inr (Some (ex_article ''http://example.com/2'' ''No title'' 2))"
    using create_article_ex_second [of "''2024-01-02''" 2 "''http://example.com/2''" "''''"]
    by (simp add: ex_parse_values ex_strips)
  have t: "title (ex_article ''http://example.com/2'' ''No title'' 2) = ''No title''"
    by (simp add: ex_article_def)
  have p: "parse_news (\<lambda>u. Some [?n]) ex_parse [''u1''] = Inr []"
    using title_resolution [where e = ?n and parse = ex_parse and acc = "[]" and es = "[]"] n
    by (simp add: parse_news_def collect_news_def fetched_feeds_def sorted_by_date_reverse_def)
  show ?thesis
    using title_resolution [where e = ?e and l = "''http://example.com/2''" and t = "''''"
        and ck = "''summary''" and c = "''A long enough text''" and dk = "''published''"
        and d = "''2024-01-02''" and parse = ex_parse and k = 2 and ak = "''author''"]
      title_resolution [where e = ?n and parse = ex_parse and ck = "''summary''"
        and ak = "''author''" and dk = "''published''" and acc = "[]" and es = "[]"]
      e n c t p
    by simp
qed

section \<open>Properties of the summary\<close>


















































end
